theory Spec2Isabelle
  imports Main
begin

section \<open>Data model (app/models.py, app/schemas.py, app/exceptions.py)\<close>

text \<open>
  The three tables of \<^verbatim>\<open>app/models.py\<close>. Integers are Python's unbounded ints,
  timestamps are readings of a clock (a natural number). Of \<^verbatim>\<open>Product\<close> only the
  columns that the service module reads are kept (id, name, sku). A \<^verbatim>\<open>Movement\<close>
  carries no id of its own here: the log is a list and a movement's position in it is
  its identity.
\<close>

datatype movement_type = IN | OUT

record product =
  p_id :: int
  p_name :: string
  p_sku :: string

record warehouse_item =
  wi_id :: int
  wi_product_id :: int
  wi_quantity :: int
  wi_location :: string
  wi_safety_stock :: int
  wi_created_at :: nat
  wi_updated_at :: nat

record movement =
  mv_product_id :: int
  mv_warehouse_item_id :: "int option"
  mv_movement_type :: movement_type
  mv_quantity :: int
  mv_movement_date :: nat
  mv_remarks :: "string option"

text \<open>The request bodies of \<^verbatim>\<open>app/schemas.py\<close>.\<close>

record stock_in_request =
  sir_product_id :: int
  sir_quantity :: int
  sir_location :: string
  sir_remarks :: "string option"

record stock_out_request =
  sor_product_id :: int
  sor_quantity :: int
  sor_location :: "string option"
  sor_remarks :: "string option"

record location_quantity =
  lq_location :: string
  lq_quantity :: int

record low_stock_alert =
  lsa_product_id :: int
  lsa_product_name :: string
  lsa_sku :: string
  lsa_current_stock :: int
  lsa_safety_stock :: int
  lsa_location_details :: "location_quantity list"

record inventory_query_read =
  iq_product_id :: int
  iq_product_name :: string
  iq_sku :: string
  iq_total_quantity :: int
  iq_locations :: "location_quantity list"

text \<open>
  The two exception classes of \<^verbatim>\<open>app/exceptions.py\<close>, each with its \<^verbatim>\<open>detail\<close>.
  The detail messages of the source are Chinese text; they are named here by what they
  say: the two class defaults, and the four messages that \<^verbatim>\<open>stock_out\<close> passes.
\<close>

datatype detail =
    Default_product_not_found
  | Default_insufficient_stock
  | No_record_at_location string
  | No_stock_at_any_location
  | Insufficient_at_location string
  | Insufficient_total

datatype error =
    ProductNotFoundException detail
  | InsufficientStockException detail

text \<open>The database: the rows of each table, in insertion order.\<close>

record db =
  products :: "product list"
  items :: "warehouse_item list"
  movements :: "movement list"

section \<open>The session (the ledger store)\<close>

text \<open>\<^verbatim>\<open>session.get(Product, id)\<close>: the row with that primary key, if any.\<close>

definition session_get_product :: "db \<Rightarrow> int \<Rightarrow> product option" where
  "session_get_product d pid = find (\<lambda>p. p_id p = pid) (products d)"

text \<open>
  \<^verbatim>\<open>select(WarehouseItem).where(product_id == .., location == ..)\<close> followed by
  \<^verbatim>\<open>.first()\<close>: the first matching row.
\<close>

definition first_item_at :: "db \<Rightarrow> int \<Rightarrow> string \<Rightarrow> warehouse_item option" where
  "first_item_at d pid loc =
     find (\<lambda>i. wi_product_id i = pid \<and> wi_location i = loc) (items d)"

text \<open>
  \<^verbatim>\<open>session.add\<close> of a loaded, modified object: the row with the object's
  primary key is overwritten.
\<close>

definition save_item :: "warehouse_item \<Rightarrow> db \<Rightarrow> db" where
  "save_item i d = d\<lparr>items := map (\<lambda>r. if wi_id r = wi_id i then i else r) (items d)\<rparr>"

text \<open>
  \<^verbatim>\<open>session.add\<close> of a new object and \<^verbatim>\<open>session.flush()\<close>: the row is appended
  under a primary key that no row of the table has (one more than the greatest).
\<close>

definition next_item_id :: "db \<Rightarrow> int" where
  "next_item_id d = fold max (map wi_id (items d)) 0 + 1"

definition insert_item :: "warehouse_item \<Rightarrow> db \<Rightarrow> db" where
  "insert_item i d = d\<lparr>items := items d @ [i]\<rparr>"

definition add_movement :: "movement \<Rightarrow> db \<Rightarrow> db" where
  "add_movement m d = d\<lparr>movements := movements d @ [m]\<rparr>"

text \<open>\<^verbatim>\<open>session.refresh(obj)\<close>: the object is reloaded from its row.\<close>

definition refresh :: "db \<Rightarrow> warehouse_item \<Rightarrow> warehouse_item" where
  "refresh d i = (case find (\<lambda>r. wi_id r = wi_id i) (items d) of Some r \<Rightarrow> r | None \<Rightarrow> i)"

text \<open>
  \<^verbatim>\<open>with session.begin():\<close> runs its body on the database; the body hands back
  the database as it has written it so far, and either a result or the exception it
  raised. Leaving the block with a result commits; leaving it by an exception rolls
  back to the database the block started from.
\<close>

definition session_begin :: "(db \<Rightarrow> db \<times> (error + 'a)) \<Rightarrow> db \<Rightarrow> db \<times> (error + 'a)" where
  "session_begin body d =
     (case body d of
        (d', Inr r) \<Rightarrow> (d', Inr r)
      | (d', Inl e) \<Rightarrow> (d, Inl e))"

section \<open>Allocation engine (app/services/inventory_service.py)\<close>

subsection \<open>\<^verbatim>\<open>stock_in\<close>\<close>

text \<open>
  The argument \<open>now\<close> is the reading of \<^verbatim>\<open>datetime.utcnow()\<close> during the call.
  The default of \<^verbatim>\<open>safety_stock\<close> is the 5 of \<^verbatim>\<open>WarehouseItem\<close>.
\<close>

definition in_movement :: "nat \<Rightarrow> stock_in_request \<Rightarrow> warehouse_item \<Rightarrow> movement" where
  "in_movement now req db_item =
     \<lparr>mv_product_id = wi_product_id db_item,
      mv_warehouse_item_id = Some (wi_id db_item),
      mv_movement_type = IN,
      mv_quantity = sir_quantity req,
      mv_movement_date = now,
      mv_remarks = sir_remarks req\<rparr>"

definition stock_in_body :: "nat \<Rightarrow> stock_in_request \<Rightarrow> db \<Rightarrow> db \<times> (error + warehouse_item)" where
  "stock_in_body now req d =
     (case session_get_product d (sir_product_id req) of
        None \<Rightarrow> (d, Inl (ProductNotFoundException Default_product_not_found))
      | Some p \<Rightarrow>
          (case first_item_at d (sir_product_id req) (sir_location req) of
             Some existing_item \<Rightarrow>
               (let db_item = existing_item
                      \<lparr>wi_quantity := wi_quantity existing_item + sir_quantity req,
                       wi_updated_at := now\<rparr>
                in (add_movement (in_movement now req db_item) (save_item db_item d),
                    Inr db_item))
           | None \<Rightarrow>
               (let db_item =
                      \<lparr>wi_id = next_item_id d,
                       wi_product_id = sir_product_id req,
                       wi_quantity = sir_quantity req,
                       wi_location = sir_location req,
                       wi_safety_stock = 5,
                       wi_created_at = now,
                       wi_updated_at = now\<rparr>
                in (add_movement (in_movement now req db_item) (insert_item db_item d),
                    Inr db_item))))"

definition stock_in :: "nat \<Rightarrow> stock_in_request \<Rightarrow> db \<Rightarrow> db \<times> (error + warehouse_item)" where
  "stock_in now req d =
     (case session_begin (stock_in_body now req) d of
        (d', Inr db_item) \<Rightarrow> (d', Inr (refresh d' db_item))
      | (d', Inl e) \<Rightarrow> (d', Inl e))"

subsection \<open>\<^verbatim>\<open>stock_out\<close>\<close>

definition out_movement :: "nat \<Rightarrow> stock_out_request \<Rightarrow> warehouse_item \<Rightarrow> int \<Rightarrow> movement" where
  "out_movement now req i amount =
     \<lparr>mv_product_id = sor_product_id req,
      mv_warehouse_item_id = Some (wi_id i),
      mv_movement_type = OUT,
      mv_quantity = amount,
      mv_movement_date = now,
      mv_remarks = sor_remarks req\<rparr>"

text \<open>
  The query of the untargeted branch: the product's rows with a positive quantity,
  \<^verbatim>\<open>order_by(WarehouseItem.id)\<close>.
\<close>

definition available_items :: "db \<Rightarrow> int \<Rightarrow> warehouse_item list" where
  "available_items d pid =
     sort_key wi_id (filter (\<lambda>i. wi_product_id i = pid \<and> wi_quantity i > 0) (items d))"

text \<open>
  The \<^verbatim>\<open>for item in available_items\<close> loop. Its state is the database, the list
  \<^verbatim>\<open>updated_items\<close> and \<^verbatim>\<open>remaining_to_deduct\<close>.
\<close>

fun deduct_loop ::
  "nat \<Rightarrow> stock_out_request \<Rightarrow> warehouse_item list \<Rightarrow> int \<Rightarrow> db \<times> warehouse_item list
    \<Rightarrow> db \<times> warehouse_item list" where
  "deduct_loop now req [] remaining_to_deduct (d, updated_items) = (d, updated_items)"
| "deduct_loop now req (item # rest) remaining_to_deduct (d, updated_items) =
     (if remaining_to_deduct = 0 then (d, updated_items)
      else
        (let deduct_amount = min (wi_quantity item) remaining_to_deduct;
             item' = item\<lparr>wi_quantity := wi_quantity item - deduct_amount,
                          wi_updated_at := now\<rparr>
         in deduct_loop now req rest (remaining_to_deduct - deduct_amount)
              (add_movement (out_movement now req item' deduct_amount) (save_item item' d),
               updated_items @ [item'])))"

text \<open>
  Python truthiness of an \<^verbatim>\<open>Optional[str]\<close>, as in
  \<^verbatim>\<open>if stock_out_request.location:\<close> and \<^verbatim>\<open>if sku:\<close>: neither \<^verbatim>\<open>None\<close>
  nor the empty string passes.
\<close>

definition truthy :: "string option \<Rightarrow> bool" where
  "truthy s = (case s of None \<Rightarrow> False | Some l \<Rightarrow> l \<noteq> [])"

definition stock_out_body ::
  "nat \<Rightarrow> stock_out_request \<Rightarrow> db \<Rightarrow> db \<times> (error + warehouse_item option)" where
  "stock_out_body now req d =
     (case session_get_product d (sor_product_id req) of
        None \<Rightarrow> (d, Inl (ProductNotFoundException Default_product_not_found))
      | Some p \<Rightarrow>
          (if truthy (sor_location req) then
             (case first_item_at d (sor_product_id req) (the (sor_location req)) of
                None \<Rightarrow>
                  (d, Inl (ProductNotFoundException (No_record_at_location (the (sor_location req)))))
              | Some item_to_update \<Rightarrow>
                  (if wi_quantity item_to_update < sor_quantity req then
                     (d, Inl (InsufficientStockException
                                (Insufficient_at_location (the (sor_location req)))))
                   else
                     (let item' = item_to_update
                            \<lparr>wi_quantity := wi_quantity item_to_update - sor_quantity req,
                             wi_updated_at := now\<rparr>
                      in (add_movement (out_movement now req item' (sor_quantity req))
                            (save_item item' d),
                          Inr (Some item')))))
           else
             (let avail = available_items d (sor_product_id req) in
              if avail = [] then
                (d, Inl (ProductNotFoundException No_stock_at_any_location))
              else if sum_list (map wi_quantity avail) < sor_quantity req then
                (d, Inl (InsufficientStockException Insufficient_total))
              else
                (case deduct_loop now req avail (sor_quantity req) (d, []) of
                   (d', updated_items) \<Rightarrow>
                     (d', Inr (case updated_items of [] \<Rightarrow> None | i # _ \<Rightarrow> Some i))))))"

definition stock_out ::
  "nat \<Rightarrow> stock_out_request \<Rightarrow> db \<Rightarrow> db \<times> (error + warehouse_item option)" where
  "stock_out now req d =
     (case session_begin (stock_out_body now req) d of
        (d', Inr db_item) \<Rightarrow> (d', Inr (map_option (refresh d') db_item))
      | (d', Inl e) \<Rightarrow> (d', Inl e))"

section \<open>Aggregation engine (app/services/inventory_service.py)\<close>

subsection \<open>\<^verbatim>\<open>get_low_stock_alerts\<close>\<close>

text \<open>
  The aggregate query: \<^verbatim>\<open>Product\<close> joined to \<^verbatim>\<open>WarehouseItem\<close>, grouped by
  \<^verbatim>\<open>Product.id\<close> (the primary key, so every product row is one group, and a product
  without a joined row has no group), \<^verbatim>\<open>HAVING sum(quantity) < sum(safety_stock)\<close>.
\<close>

definition low_stock_products :: "db \<Rightarrow> (int \<times> string \<times> string \<times> int \<times> int) list" where
  "low_stock_products d =
     concat (map (\<lambda>p.
        (let rows = filter (\<lambda>i. wi_product_id i = p_id p) (items d) in
         if rows \<noteq> [] \<and> sum_list (map wi_quantity rows) < sum_list (map wi_safety_stock rows)
         then [(p_id p, p_name p, p_sku p,
                sum_list (map wi_quantity rows), sum_list (map wi_safety_stock rows))]
         else [])) (products d))"

definition get_low_stock_alerts :: "db \<Rightarrow> low_stock_alert list" where
  "get_low_stock_alerts d =
     map (\<lambda>(product_id, product_name, sku, current_stock, safety_stock).
            \<lparr>lsa_product_id = product_id,
             lsa_product_name = product_name,
             lsa_sku = sku,
             lsa_current_stock = current_stock,
             lsa_safety_stock = safety_stock,
             lsa_location_details =
               map (\<lambda>i. \<lparr>lq_location = wi_location i, lq_quantity = wi_quantity i\<rparr>)
                 (filter (\<lambda>i. wi_product_id i = product_id) (items d))\<rparr>)
         (low_stock_products d)"

subsection \<open>\<^verbatim>\<open>get_inventory_overview\<close>\<close>

text \<open>
  \<^verbatim>\<open>select(WarehouseItem, Product).join(Product)\<close>: every stock row paired with the
  product rows its foreign key \<^verbatim>\<open>product_id\<close> names.
\<close>

definition join_rows :: "db \<Rightarrow> (warehouse_item \<times> product) list" where
  "join_rows d =
     concat (map (\<lambda>i. map (\<lambda>p. (i, p)) (filter (\<lambda>p. p_id p = wi_product_id i) (products d)))
       (items d))"

text \<open>
  The two optional filters. The database's \<^verbatim>\<open>ILIKE\<close> and Python's
  \<^verbatim>\<open>str.upper\<close> are not code of this repository: they are the parameters
  \<open>ilike\<close> (column value, then pattern) and \<open>upper\<close>.
\<close>

definition overview_query ::
  "(string \<Rightarrow> string \<Rightarrow> bool) \<Rightarrow> (string \<Rightarrow> string) \<Rightarrow> string option \<Rightarrow> string option \<Rightarrow> db
    \<Rightarrow> (warehouse_item \<times> product) list" where
  "overview_query ilike upper product_name sku d =
     (let q0 = join_rows d;
          q1 = (if truthy product_name
                then filter (\<lambda>(i, p). ilike (p_name p) (''%'' @ the product_name @ ''%'')) q0
                else q0);
          q2 = (if truthy sku
                then filter (\<lambda>(i, p). p_sku p = upper (the sku)) q1
                else q1)
      in q2)"

text \<open>
  One round of the grouping loop. \<^verbatim>\<open>inventory_map\<close> is a Python dict, which keeps
  its keys in insertion order: an association list to which a new key is appended.
\<close>

definition group_step ::
  "(int \<times> inventory_query_read) list \<Rightarrow> warehouse_item \<times> product
    \<Rightarrow> (int \<times> inventory_query_read) list" where
  "group_step inventory_map row =
     (case row of (item, product) \<Rightarrow>
        (let m1 = (if map_of inventory_map (p_id product) = None
                   then inventory_map @
                          [(p_id product,
                            \<lparr>iq_product_id = p_id product,
                             iq_product_name = p_name product,
                             iq_sku = p_sku product,
                             iq_total_quantity = 0,
                             iq_locations = []\<rparr>)]
                   else inventory_map);
             m2 = map (\<lambda>(k, e). if k = p_id product
                        then (k, e\<lparr>iq_total_quantity := iq_total_quantity e + wi_quantity item\<rparr>)
                        else (k, e)) m1;
             m3 = map (\<lambda>(k, e). if k = p_id product
                        then (k, e\<lparr>iq_locations := iq_locations e @
                                  [\<lparr>lq_location = wi_location item,
                                    lq_quantity = wi_quantity item\<rparr>]\<rparr>)
                        else (k, e)) m2
         in m3))"

text \<open>Python's \<^verbatim>\<open>xs[start:stop]\<close>, for any integers.\<close>

definition py_slice :: "'a list \<Rightarrow> int \<Rightarrow> int \<Rightarrow> 'a list" where
  "py_slice xs start stop =
     (let n = int (length xs);
          lo = (if start < 0 then max (n + start) 0 else min start n);
          hi = (if stop < 0 then max (n + stop) 0 else min stop n)
      in take (nat (hi - lo)) (drop (nat lo) xs))"

definition grouped_overview ::
  "(string \<Rightarrow> string \<Rightarrow> bool) \<Rightarrow> (string \<Rightarrow> string) \<Rightarrow> string option \<Rightarrow> string option \<Rightarrow> db
    \<Rightarrow> inventory_query_read list" where
  "grouped_overview ilike upper product_name sku d =
     map snd (foldl group_step [] (overview_query ilike upper product_name sku d))"

definition get_inventory_overview ::
  "(string \<Rightarrow> string \<Rightarrow> bool) \<Rightarrow> (string \<Rightarrow> string) \<Rightarrow> db \<Rightarrow> int \<Rightarrow> int
    \<Rightarrow> string option \<Rightarrow> string option \<Rightarrow> inventory_query_read list" where
  "get_inventory_overview ilike upper d offset limit product_name sku =
     py_slice (grouped_overview ilike upper product_name sku d) offset (offset + limit)"

section \<open>What the specification says, in its own terms\<close>

text \<open>
  The walk of the untargeted stock-out as the specification words it: over the ordered
  records, take \<open>min(record.quantity, remaining)\<close> from each in turn until
  \<open>remaining\<close> reaches zero. The result pairs every touched record with the amount
  taken from it.
\<close>

fun spec_allocation :: "warehouse_item list \<Rightarrow> int \<Rightarrow> (warehouse_item \<times> int) list" where
  "spec_allocation [] remaining = []"
| "spec_allocation (r # rs) remaining =
     (if remaining = 0 then []
      else (r, min (wi_quantity r) remaining)
             # spec_allocation rs (remaining - min (wi_quantity r) remaining))"

text \<open>
  What the walk leaves behind, in those terms: every touched row with its amount taken
  off and its timestamp set, every other row as it was; and one OUT movement per touched
  record, carrying that record's amount and its id.
\<close>

definition allocation_rows ::
  "nat \<Rightarrow> (warehouse_item \<times> int) list \<Rightarrow> warehouse_item list \<Rightarrow> warehouse_item list" where
  "allocation_rows now alloc rows =
     map (\<lambda>x. case map_of alloc x of
                 None \<Rightarrow> x
               | Some a \<Rightarrow> x\<lparr>wi_quantity := wi_quantity x - a, wi_updated_at := now\<rparr>) rows"

definition allocation_movements ::
  "nat \<Rightarrow> stock_out_request \<Rightarrow> (warehouse_item \<times> int) list \<Rightarrow> movement list" where
  "allocation_movements now req alloc =
     map (\<lambda>(r, a). \<lparr>mv_product_id = sor_product_id req, mv_warehouse_item_id = Some (wi_id r),
                     mv_movement_type = OUT, mv_quantity = a,
                     mv_movement_date = now, mv_remarks = sor_remarks req\<rparr>) alloc"

text \<open>
  The two sides of the conservation property for one product: what the movement log
  adds up to, and what the stock records hold.
\<close>

definition movement_balance :: "db \<Rightarrow> int \<Rightarrow> int" where
  "movement_balance d pid =
     sum_list (map mv_quantity
        (filter (\<lambda>m. mv_product_id m = pid \<and> mv_movement_type m = IN) (movements d)))
     - sum_list (map mv_quantity
        (filter (\<lambda>m. mv_product_id m = pid \<and> mv_movement_type m = OUT) (movements d)))"

definition stock_total :: "db \<Rightarrow> int \<Rightarrow> int" where
  "stock_total d pid =
     sum_list (map wi_quantity (filter (\<lambda>i. wi_product_id i = pid) (items d)))"

text \<open>
  What it is for a stock record to match the filters of the overview: its product
  exists and passes the name filter and the SKU filter, each applied only when given.
\<close>

definition product_matches ::
  "(string \<Rightarrow> string \<Rightarrow> bool) \<Rightarrow> (string \<Rightarrow> string) \<Rightarrow> string option \<Rightarrow> string option
    \<Rightarrow> product \<Rightarrow> bool" where
  "product_matches ilike upper product_name sku p =
     ((truthy product_name \<longrightarrow> ilike (p_name p) (''%'' @ the product_name @ ''%''))
      \<and> (truthy sku \<longrightarrow> p_sku p = upper (the sku)))"

definition record_matches ::
  "(string \<Rightarrow> string \<Rightarrow> bool) \<Rightarrow> (string \<Rightarrow> string) \<Rightarrow> string option \<Rightarrow> string option
    \<Rightarrow> db \<Rightarrow> warehouse_item \<Rightarrow> bool" where
  "record_matches ilike upper product_name sku d i =
     (\<exists>p\<in>set (products d). p_id p = wi_product_id i
         \<and> product_matches ilike upper product_name sku p)"

text \<open>A sequence of calls, and the databases it passes through.\<close>

datatype operation =
    StockIn nat stock_in_request
  | StockOut nat stock_out_request

fun apply_operation :: "operation \<Rightarrow> db \<Rightarrow> db" where
  "apply_operation (StockIn now req) d = fst (stock_in now req d)"
| "apply_operation (StockOut now req) d = fst (stock_out now req d)"

fun trace :: "db \<Rightarrow> operation list \<Rightarrow> db list" where
  "trace d [] = [d]"
| "trace d (op # ops) = d # trace (apply_operation op d) ops"

definition empty_store :: "product list \<Rightarrow> db" where
  "empty_store ps = \<lparr>products = ps, items = [], movements = []\<rparr>"

definition non_negative :: "db \<Rightarrow> bool" where
  "non_negative d = list_all (\<lambda>i. 0 \<le> wi_quantity i) (items d)"

section \<open>Example stores\<close>

text \<open>
  One product; a store with one record of 50 at B2 (the scenario of
  \<^verbatim>\<open>test_stock_out_insufficient\<close>), and a store with the records R1 and R2 of 5
  each. Their movement logs are the stock-ins that built them.
\<close>

definition widget :: product where
  "widget = \<lparr>p_id = 1, p_name = ''Widget'', p_sku = ''WID-1''\<rparr>"

definition record_b2 :: warehouse_item where
  "record_b2 = \<lparr>wi_id = 1, wi_product_id = 1, wi_quantity = 50, wi_location = ''B2'',
                 wi_safety_stock = 5, wi_created_at = 0, wi_updated_at = 0\<rparr>"

definition store_b2 :: db where
  "store_b2 =
     \<lparr>products = [widget],
      items = [record_b2],
      movements = [\<lparr>mv_product_id = 1, mv_warehouse_item_id = Some 1, mv_movement_type = IN,
                    mv_quantity = 50, mv_movement_date = 0, mv_remarks = None\<rparr>]\<rparr>"

definition record_r1 :: warehouse_item where
  "record_r1 = \<lparr>wi_id = 1, wi_product_id = 1, wi_quantity = 5, wi_location = ''A1'',
                 wi_safety_stock = 5, wi_created_at = 0, wi_updated_at = 0\<rparr>"

definition record_r2 :: warehouse_item where
  "record_r2 = \<lparr>wi_id = 2, wi_product_id = 1, wi_quantity = 5, wi_location = ''A2'',
                 wi_safety_stock = 5, wi_created_at = 1, wi_updated_at = 1\<rparr>"

definition store_r1_r2 :: db where
  "store_r1_r2 =
     \<lparr>products = [widget],
      items = [record_r1, record_r2],
      movements = [\<lparr>mv_product_id = 1, mv_warehouse_item_id = Some 1, mv_movement_type = IN,
                    mv_quantity = 5, mv_movement_date = 0, mv_remarks = None\<rparr>,
                   \<lparr>mv_product_id = 1, mv_warehouse_item_id = Some 2, mv_movement_type = IN,
                    mv_quantity = 5, mv_movement_date = 1, mv_remarks = None\<rparr>]\<rparr>"

definition out_request :: "int \<Rightarrow> int \<Rightarrow> string option \<Rightarrow> stock_out_request" where
  "out_request pid q loc =
     \<lparr>sor_product_id = pid, sor_quantity = q, sor_location = loc, sor_remarks = None\<rparr>"

definition in_request :: "int \<Rightarrow> int \<Rightarrow> string \<Rightarrow> stock_in_request" where
  "in_request pid q loc =
     \<lparr>sir_product_id = pid, sir_quantity = q, sir_location = loc, sir_remarks = None\<rparr>"

text \<open>Two stock-ins of 5 at two locations, then an untargeted stock-out of 7.\<close>

definition example_operations :: "operation list" where
  "example_operations =
     [StockIn 0 (in_request 1 5 ''A1''), StockIn 1 (in_request 1 5 ''A2''),
      StockOut 3 (out_request 1 7 None)]"

text \<open>
  A second product with one record, one unit below its safety stock, and a store that
  holds both products; a stand-in for the database's \<^verbatim>\<open>ILIKE\<close> that accepts every
  name, and for \<^verbatim>\<open>str.upper\<close> on text that is upper case already.
\<close>

definition gadget :: product where
  "gadget = \<lparr>p_id = 2, p_name = ''Gadget'', p_sku = ''GAD-2''\<rparr>"

definition record_g1 :: warehouse_item where
  "record_g1 = \<lparr>wi_id = 3, wi_product_id = 2, wi_quantity = 4, wi_location = ''A1'',
                 wi_safety_stock = 5, wi_created_at = 2, wi_updated_at = 2\<rparr>"

definition store_two :: db where
  "store_two =
     \<lparr>products = [widget, gadget],
      items = [record_r1, record_r2, record_g1],
      movements = [\<lparr>mv_product_id = 1, mv_warehouse_item_id = Some 1, mv_movement_type = IN,
                    mv_quantity = 5, mv_movement_date = 0, mv_remarks = None\<rparr>,
                   \<lparr>mv_product_id = 1, mv_warehouse_item_id = Some 2, mv_movement_type = IN,
                    mv_quantity = 5, mv_movement_date = 1, mv_remarks = None\<rparr>,
                   \<lparr>mv_product_id = 2, mv_warehouse_item_id = Some 3, mv_movement_type = IN,
                    mv_quantity = 4, mv_movement_date = 2, mv_remarks = None\<rparr>]\<rparr>"

definition any_ilike :: "string \<Rightarrow> string \<Rightarrow> bool" where
  "any_ilike column pattern = True"

definition same_case :: "string \<Rightarrow> string" where
  "same_case s = s"

section \<open>Facts about the session\<close>

lemma same_id_same_row:
  "distinct (map wi_id xs) \<Longrightarrow> x \<in> set xs \<Longrightarrow> y \<in> set xs \<Longrightarrow> wi_id x = wi_id y \<Longrightarrow> x = y"
  by (meson distinct_map inj_onD)

lemma overwrite_row:
  assumes "distinct (map wi_id xs)" and "r \<in> set xs" and "wi_id r' = wi_id r"
  shows "map (\<lambda>x. if wi_id x = wi_id r' then r' else x) xs = map (\<lambda>x. if x = r then r' else x) xs"
  using assms by (auto dest: same_id_same_row)

lemma find_overwritten:
  "\<exists>x\<in>set xs. wi_id x = wi_id i \<Longrightarrow>
   find (\<lambda>r. wi_id r = wi_id i) (map (\<lambda>r. if wi_id r = wi_id i then i else r) xs) = Some i"
  by (induction xs) auto

lemma refresh_saved:
  "\<exists>x\<in>set (items d). wi_id x = wi_id i \<Longrightarrow> refresh (add_movement m (save_item i d)) i = i"
  by (simp add: refresh_def add_movement_def save_item_def find_overwritten)

lemma first_item_at_Some:
  "first_item_at d pid loc = Some r \<Longrightarrow>
   r \<in> set (items d) \<and> wi_product_id r = pid \<and> wi_location r = loc"
  by (auto simp: first_item_at_def find_Some_iff)

lemma first_item_at_None:
  "first_item_at d pid loc = None \<longleftrightarrow>
   (\<forall>r\<in>set (items d). \<not> (wi_product_id r = pid \<and> wi_location r = loc))"
  by (auto simp: first_item_at_def find_None_iff)

lemma fold_max_ge: "(a::int) \<le> fold max xs a"
  by (induction xs arbitrary: a) (auto intro: order_trans [OF max.cobounded2])

lemma fold_max_upper: "x \<in> set xs \<Longrightarrow> (x::int) \<le> fold max xs a"
proof (induction xs arbitrary: a)
  case Nil
  then show ?case by simp
next
  case (Cons y ys)
  show ?case
  proof (cases "x = y")
    case True
    have "y \<le> max y a" by simp
    also have "\<dots> \<le> fold max ys (max y a)" by (rule fold_max_ge)
    finally show ?thesis using True by simp
  next
    case False
    with Cons show ?thesis by simp
  qed
qed

lemma next_item_id_fresh: "r \<in> set (items d) \<Longrightarrow> wi_id r < next_item_id d"
  using fold_max_upper [of "wi_id r" "map wi_id (items d)" 0] by (simp add: next_item_id_def)

lemma find_appended_fresh:
  "\<forall>x\<in>set xs. \<not> P x \<Longrightarrow> P y \<Longrightarrow> find P (xs @ [y]) = Some y"
  by (induction xs) auto

lemma refresh_inserted:
  "wi_id i = next_item_id d \<Longrightarrow> refresh (add_movement m (insert_item i d)) i = i"
proof -
  assume a: "wi_id i = next_item_id d"
  have "\<forall>x\<in>set (items d). \<not> wi_id x = wi_id i"
    using next_item_id_fresh [of _ d] a by fastforce
  then have "find (\<lambda>r. wi_id r = wi_id i) (items d @ [i]) = Some i"
    by (rule find_appended_fresh) simp
  then show ?thesis by (simp add: refresh_def add_movement_def insert_item_def)
qed

lemma occurs_once: "distinct xs \<Longrightarrow> x \<in> set xs \<Longrightarrow> length (filter (\<lambda>y. y = x) xs) = 1"
proof (induction xs)
  case Nil
  then show ?case by simp
next
  case (Cons a xs)
  show ?case
  proof (cases "a = x")
    case True
    with Cons.prems have "x \<notin> set xs" by simp
    then have "filter (\<lambda>y. y = x) xs = []" by (auto simp: filter_empty_conv)
    with True show ?thesis by simp
  next
    case False
    with Cons show ?thesis by simp
  qed
qed

lemma row_occurs_once:
  "distinct (map wi_id xs) \<Longrightarrow> r \<in> set xs \<Longrightarrow> length (filter (\<lambda>y. y = r) xs) = 1"
  by (rule occurs_once) (simp_all add: distinct_map)

lemma find_first_of_filter:
  "find P xs = (case filter P xs of [] \<Rightarrow> None | x # _ \<Rightarrow> Some x)"
  by (induction xs) auto

lemma first_item_at_first:
  "filter (\<lambda>i. wi_product_id i = pid \<and> wi_location i = loc) (items d) = r # rest \<Longrightarrow>
   first_item_at d pid loc = Some r"
  by (simp add: first_item_at_def find_first_of_filter)

lemma first_item_at_is_first:
  "first_item_at d pid loc = Some r \<Longrightarrow>
   \<exists>rest. filter (\<lambda>i. wi_product_id i = pid \<and> wi_location i = loc) (items d) = r # rest"
  by (simp add: first_item_at_def find_first_of_filter split: list.splits)

lemma product_unknown_iff:
  "(session_get_product d pid = None) = (\<not> (\<exists>p\<in>set (products d). p_id p = pid))"
  by (auto simp: session_get_product_def find_None_iff)

lemma product_resolves:
  "\<exists>p\<in>set (products d). p_id p = pid \<Longrightarrow> \<exists>p. session_get_product d pid = Some p"
  using product_unknown_iff [of d pid] by (cases "session_get_product d pid") auto

section \<open>Failure of a stock-out\<close>

lemma stock_out_body_failure:
  "snd (stock_out_body now req d) = Inl e \<Longrightarrow> fst (stock_out_body now req d) = d"
  by (auto simp: stock_out_body_def Let_def split: option.splits if_splits prod.splits)

text \<open>
  C3. Whenever a stock-out fails, targeted or not, with either exception, the database
  it leaves is the database it found: every stock record and the movement log are
  unchanged. The rollback of the transaction gives this, and the body itself has written
  nothing by the time it raises.
\<close>

theorem stock_out_failure_atomic:
  assumes "snd (stock_out now req d) = Inl e"
  shows "fst (stock_out now req d) = d \<and> stock_out_body now req d = (d, Inl e)"
proof -
  obtain d1 r1 where b: "stock_out_body now req d = (d1, r1)"
    by (cases "stock_out_body now req d")
  from assms b have r1: "r1 = Inl e"
    by (cases r1) (auto simp: stock_out_def session_begin_def)
  with b have "d1 = d"
    using stock_out_body_failure [of now req d e] by simp
  with b r1 show ?thesis
    by (simp add: stock_out_def session_begin_def)
qed

theorem stock_out_failure_atomic_witness:
  "snd (stock_out 7 (out_request 1 100 (Some ''B2'')) store_b2) =
     Inl (InsufficientStockException (Insufficient_at_location ''B2''))
   \<and> fst (stock_out 7 (out_request 1 100 (Some ''B2'')) store_b2) = store_b2
   \<and> stock_out_body 7 (out_request 1 100 (Some ''B2'')) store_b2 =
       (store_b2, Inl (InsufficientStockException (Insufficient_at_location ''B2'')))"
proof -
  have h: "snd (stock_out 7 (out_request 1 100 (Some ''B2'')) store_b2) =
     Inl (InsufficientStockException (Insufficient_at_location ''B2''))"
    by (simp add: stock_out_def session_begin_def stock_out_body_def session_get_product_def
        first_item_at_def truthy_def store_b2_def widget_def record_b2_def out_request_def)
  from stock_out_failure_atomic [OF h] h show ?thesis by simp
qed

section \<open>Targeted stock-out\<close>

lemma stock_out_unknown_product:
  "session_get_product d (sor_product_id req) = None \<Longrightarrow>
   stock_out now req d = (d, Inl (ProductNotFoundException Default_product_not_found))"
  by (simp add: stock_out_def session_begin_def stock_out_body_def)

lemma stock_out_targeted_absent:
  assumes "session_get_product d (sor_product_id req) = Some p"
      and "sor_location req = Some loc" and "loc \<noteq> []"
      and "first_item_at d (sor_product_id req) loc = None"
  shows "stock_out now req d = (d, Inl (ProductNotFoundException (No_record_at_location loc)))"
  using assms by (simp add: stock_out_def session_begin_def stock_out_body_def truthy_def)

lemma stock_out_targeted_insufficient:
  assumes "session_get_product d (sor_product_id req) = Some p"
      and "sor_location req = Some loc" and "loc \<noteq> []"
      and "first_item_at d (sor_product_id req) loc = Some r"
      and "wi_quantity r < sor_quantity req"
  shows "stock_out now req d = (d, Inl (InsufficientStockException (Insufficient_at_location loc)))"
  using assms by (simp add: stock_out_def session_begin_def stock_out_body_def truthy_def)

lemma stock_out_targeted_success:
  assumes ids: "distinct (map wi_id (items d))"
      and "session_get_product d (sor_product_id req) = Some p"
      and "sor_location req = Some loc" and "loc \<noteq> []"
      and f: "first_item_at d (sor_product_id req) loc = Some r"
      and "sor_quantity req \<le> wi_quantity r"
  shows "stock_out now req d =
     (d\<lparr>items := map (\<lambda>x. if x = r
                          then r\<lparr>wi_quantity := wi_quantity r - sor_quantity req,
                                 wi_updated_at := now\<rparr>
                          else x) (items d),
         movements := movements d @
           [\<lparr>mv_product_id = sor_product_id req, mv_warehouse_item_id = Some (wi_id r),
             mv_movement_type = OUT, mv_quantity = sor_quantity req,
             mv_movement_date = now, mv_remarks = sor_remarks req\<rparr>]\<rparr>,
      Inr (Some (r\<lparr>wi_quantity := wi_quantity r - sor_quantity req, wi_updated_at := now\<rparr>)))"
proof -
  let ?r' = "r\<lparr>wi_quantity := wi_quantity r - sor_quantity req, wi_updated_at := now\<rparr>"
  let ?m = "out_movement now req ?r' (sor_quantity req)"
  from f have rin: "r \<in> set (items d)" by (simp add: first_item_at_Some)
  have body: "stock_out_body now req d = (add_movement ?m (save_item ?r' d), Inr (Some ?r'))"
    using assms by (simp add: stock_out_body_def truthy_def Let_def)
  have ref: "refresh (add_movement ?m (save_item ?r' d)) ?r' = ?r'"
    by (rule refresh_saved) (use rin in auto)
  have its: "items (save_item ?r' d) = map (\<lambda>x. if x = r then ?r' else x) (items d)"
    using overwrite_row [OF ids rin, of ?r'] by (simp add: save_item_def)
  have "add_movement ?m (save_item ?r' d) =
        d\<lparr>items := map (\<lambda>x. if x = r then ?r' else x) (items d),
          movements := movements d @ [?m]\<rparr>"
    using its by (simp add: add_movement_def save_item_def)
  then show ?thesis
    using body ref by (simp add: stock_out_def session_begin_def out_movement_def)
qed

lemma targeted_stock_out_found:
  assumes "distinct (map wi_id (items d))"
      and "session_get_product d (sor_product_id req) = Some p"
      and "sor_location req = Some loc" and "loc \<noteq> []"
      and "0 < sor_quantity req"
  shows "((\<exists>dt. snd (stock_out now req d) = Inl (ProductNotFoundException dt))
            \<longleftrightarrow> \<not> (\<exists>r\<in>set (items d). wi_product_id r = sor_product_id req \<and> wi_location r = loc))
       \<and> ((\<exists>dt. snd (stock_out now req d) = Inl (InsufficientStockException dt))
            \<longleftrightarrow> (\<exists>r rest. filter (\<lambda>i. wi_product_id i = sor_product_id req \<and> wi_location i = loc)
                                (items d) = r # rest
                      \<and> wi_quantity r < sor_quantity req))
       \<and> (\<forall>r rest. filter (\<lambda>i. wi_product_id i = sor_product_id req \<and> wi_location i = loc)
                        (items d) = r # rest
                    \<and> sor_quantity req \<le> wi_quantity r
            \<longrightarrow> r \<in> set (items d) \<and> wi_product_id r = sor_product_id req \<and> wi_location r = loc
                \<and> stock_out now req d =
                 (d\<lparr>items := map (\<lambda>x. if x = r
                          then r\<lparr>wi_quantity := wi_quantity r - sor_quantity req,
                                 wi_updated_at := now\<rparr>
                          else x) (items d),
                    movements := movements d @
                      [\<lparr>mv_product_id = sor_product_id req, mv_warehouse_item_id = Some (wi_id r),
                        mv_movement_type = OUT, mv_quantity = sor_quantity req,
                        mv_movement_date = now, mv_remarks = sor_remarks req\<rparr>]\<rparr>,
                  Inr (Some (r\<lparr>wi_quantity := wi_quantity r - sor_quantity req,
                               wi_updated_at := now\<rparr>)))
                \<and> length (filter (\<lambda>x. x = r) (items d)) = 1)"
proof (cases "first_item_at d (sor_product_id req) loc")
  case None
  note absent = stock_out_targeted_absent [OF assms(2,3,4) None, of now]
  from None have no: "\<not> (\<exists>r\<in>set (items d). wi_product_id r = sor_product_id req \<and> wi_location r = loc)"
    by (simp add: first_item_at_None)
  then have "filter (\<lambda>i. wi_product_id i = sor_product_id req \<and> wi_location i = loc) (items d) = []"
    by (auto simp: filter_empty_conv)
  with no absent show ?thesis by simp
next
  case (Some r)
  then have rin: "r \<in> set (items d)" "wi_product_id r = sor_product_id req" "wi_location r = loc"
    by (simp_all add: first_item_at_Some)
  from first_item_at_is_first [OF Some] obtain rest where
    fl: "filter (\<lambda>i. wi_product_id i = sor_product_id req \<and> wi_location i = loc) (items d) = r # rest"
    by blast
  note once = row_occurs_once [OF assms(1) rin(1)]
  have ex: "\<exists>r\<in>set (items d). wi_product_id r = sor_product_id req \<and> wi_location r = loc"
    using rin by blast
  show ?thesis
  proof (cases "wi_quantity r < sor_quantity req")
    case True
    note ins = stock_out_targeted_insufficient [OF assms(2,3,4) Some True, of now]
    with fl True ex show ?thesis by simp
  next
    case False
    then have le: "sor_quantity req \<le> wi_quantity r" by simp
    note ok = stock_out_targeted_success [OF assms(1,2,3,4) Some le, of now]
    with fl False rin once ex show ?thesis by simp
  qed
qed

text \<open>
  C4. A targeted stock-out (location given, quantity positive) on an existing product
  fails with the product-not-found exception exactly when the store has no stock record
  at that (product, location); fails with the insufficient-stock exception exactly when
  a record is there and the quantity asked is strictly more than it holds (so asking for
  all of it succeeds); and otherwise rewrites that record, a row of that product and
  location which occurs once, with exactly the quantity asked taken off, appends one OUT
  movement of that quantity linked to it, and leaves every other row as it was. The
  record at a (product, location) is the head of the store's rows with that product and
  location; the product exists when a row of the product table has its id.
\<close>

theorem targeted_stock_out_cases:
  assumes "distinct (map wi_id (items d))"
      and "\<exists>p\<in>set (products d). p_id p = sor_product_id req"
      and "sor_location req = Some loc" and "loc \<noteq> []"
      and "0 < sor_quantity req"
  shows "((\<exists>dt. snd (stock_out now req d) = Inl (ProductNotFoundException dt))
            \<longleftrightarrow> \<not> (\<exists>r\<in>set (items d). wi_product_id r = sor_product_id req \<and> wi_location r = loc))
       \<and> ((\<exists>dt. snd (stock_out now req d) = Inl (InsufficientStockException dt))
            \<longleftrightarrow> (\<exists>r rest. filter (\<lambda>i. wi_product_id i = sor_product_id req \<and> wi_location i = loc)
                                (items d) = r # rest
                      \<and> wi_quantity r < sor_quantity req))
       \<and> (\<forall>r rest. filter (\<lambda>i. wi_product_id i = sor_product_id req \<and> wi_location i = loc)
                        (items d) = r # rest
                    \<and> sor_quantity req \<le> wi_quantity r
            \<longrightarrow> r \<in> set (items d) \<and> wi_product_id r = sor_product_id req \<and> wi_location r = loc
                \<and> stock_out now req d =
                 (d\<lparr>items := map (\<lambda>x. if x = r
                          then r\<lparr>wi_quantity := wi_quantity r - sor_quantity req,
                                 wi_updated_at := now\<rparr>
                          else x) (items d),
                    movements := movements d @
                      [\<lparr>mv_product_id = sor_product_id req, mv_warehouse_item_id = Some (wi_id r),
                        mv_movement_type = OUT, mv_quantity = sor_quantity req,
                        mv_movement_date = now, mv_remarks = sor_remarks req\<rparr>]\<rparr>,
                  Inr (Some (r\<lparr>wi_quantity := wi_quantity r - sor_quantity req,
                               wi_updated_at := now\<rparr>)))
                \<and> length (filter (\<lambda>x. x = r) (items d)) = 1)"
proof -
  from product_resolves [OF assms(2)] obtain p where
    "session_get_product d (sor_product_id req) = Some p" ..
  from targeted_stock_out_found [OF assms(1) this assms(3,4,5)] show ?thesis .
qed

theorem targeted_stock_out_cases_witness:
  "distinct (map wi_id (items store_r1_r2))
   \<and> (\<exists>p\<in>set (products store_r1_r2). p_id p = sor_product_id (out_request 1 5 (Some ''A2'')))
   \<and> sor_location (out_request 1 5 (Some ''A2'')) = Some ''A2'' \<and> ''A2'' \<noteq> []
   \<and> 0 < sor_quantity (out_request 1 5 (Some ''A2''))
   \<and> filter (\<lambda>i. wi_product_id i = sor_product_id (out_request 1 5 (Some ''A2''))
                  \<and> wi_location i = ''A2'') (items store_r1_r2) = [record_r2]
   \<and> sor_quantity (out_request 1 5 (Some ''A2'')) \<le> wi_quantity record_r2
   \<and> stock_out 7 (out_request 1 5 (Some ''A2'')) store_r1_r2 =
       (store_r1_r2\<lparr>items := [record_r1, record_r2\<lparr>wi_quantity := 0, wi_updated_at := 7\<rparr>],
          movements := movements store_r1_r2 @
            [\<lparr>mv_product_id = 1, mv_warehouse_item_id = Some 2, mv_movement_type = OUT,
              mv_quantity = 5, mv_movement_date = 7, mv_remarks = None\<rparr>]\<rparr>,
        Inr (Some (record_r2\<lparr>wi_quantity := 0, wi_updated_at := 7\<rparr>)))"
proof -
  have rq: "sor_product_id (out_request 1 5 (Some ''A2'')) = 1"
    "sor_quantity (out_request 1 5 (Some ''A2'')) = 5"
    "sor_remarks (out_request 1 5 (Some ''A2'')) = None"
    by (simp_all add: out_request_def)
  have h1: "distinct (map wi_id (items store_r1_r2))"
    by (simp add: store_r1_r2_def record_r1_def record_r2_def)
  have h2: "(\<exists>p\<in>set (products store_r1_r2). p_id p = sor_product_id (out_request 1 5 (Some ''A2'')))"
    by (simp add: store_r1_r2_def widget_def out_request_def)
  have h3: "sor_location (out_request 1 5 (Some ''A2'')) = Some ''A2''"
    by (simp add: out_request_def)
  have h4: "''A2'' \<noteq> []" by simp
  have h5: "0 < sor_quantity (out_request 1 5 (Some ''A2''))"
    by (simp add: out_request_def)
  have fl: "filter (\<lambda>i. wi_product_id i = sor_product_id (out_request 1 5 (Some ''A2''))
                  \<and> wi_location i = ''A2'') (items store_r1_r2) = [record_r2]"
    by (simp add: rq store_r1_r2_def) (simp add: record_r1_def record_r2_def)
  have le: "sor_quantity (out_request 1 5 (Some ''A2'')) \<le> wi_quantity record_r2"
    by (simp add: rq record_r2_def)
  have ne: "record_r1 \<noteq> record_r2"
    by (simp add: record_r1_def record_r2_def)
  note t = targeted_stock_out_cases [OF h1 h2 h3 h4 h5, of 7, THEN conjunct2, THEN conjunct2,
      rule_format, OF conjI [OF fl le], unfolded rq]
  from t
  have "stock_out 7 (out_request 1 5 (Some ''A2'')) store_r1_r2 =
       (store_r1_r2\<lparr>items := map (\<lambda>x. if x = record_r2
                          then record_r2\<lparr>wi_quantity := wi_quantity record_r2 - 5,
                                 wi_updated_at := 7\<rparr>
                          else x) (items store_r1_r2),
          movements := movements store_r1_r2 @
            [\<lparr>mv_product_id = 1, mv_warehouse_item_id = Some (wi_id record_r2), mv_movement_type = OUT,
              mv_quantity = 5, mv_movement_date = 7, mv_remarks = None\<rparr>]\<rparr>,
        Inr (Some (record_r2\<lparr>wi_quantity := wi_quantity record_r2 - 5, wi_updated_at := 7\<rparr>)))"
    by (elim conjE)
  moreover have "map (\<lambda>x. if x = record_r2
                          then record_r2\<lparr>wi_quantity := wi_quantity record_r2 - 5,
                                 wi_updated_at := 7\<rparr>
                          else x) (items store_r1_r2) =
        [record_r1, record_r2\<lparr>wi_quantity := 0, wi_updated_at := 7\<rparr>]"
    using ne by (simp add: store_r1_r2_def) (simp add: record_r2_def)
  moreover have "wi_quantity record_r2 - 5 = 0" "wi_id record_r2 = 2"
    by (simp_all add: record_r2_def)
  ultimately have res: "stock_out 7 (out_request 1 5 (Some ''A2'')) store_r1_r2 =
       (store_r1_r2\<lparr>items := [record_r1, record_r2\<lparr>wi_quantity := 0, wi_updated_at := 7\<rparr>],
          movements := movements store_r1_r2 @
            [\<lparr>mv_product_id = 1, mv_warehouse_item_id = Some 2, mv_movement_type = OUT,
              mv_quantity = 5, mv_movement_date = 7, mv_remarks = None\<rparr>]\<rparr>,
        Inr (Some (record_r2\<lparr>wi_quantity := 0, wi_updated_at := 7\<rparr>)))"
    by simp
  show ?thesis
    by (intro conjI h1 h2 h3 h4 h5 fl le res)
qed

section \<open>Stock-in\<close>

lemma stock_in_unknown_product:
  "session_get_product d (sir_product_id req) = None \<Longrightarrow>
   stock_in now req d = (d, Inl (ProductNotFoundException Default_product_not_found))"
  by (simp add: stock_in_def session_begin_def stock_in_body_def)

lemma stock_in_existing:
  assumes ids: "distinct (map wi_id (items d))"
      and "session_get_product d (sir_product_id req) = Some p"
      and f: "first_item_at d (sir_product_id req) (sir_location req) = Some r"
  shows "stock_in now req d =
     (d\<lparr>items := map (\<lambda>x. if x = r
                          then r\<lparr>wi_quantity := wi_quantity r + sir_quantity req,
                                 wi_updated_at := now\<rparr>
                          else x) (items d),
         movements := movements d @
           [\<lparr>mv_product_id = sir_product_id req, mv_warehouse_item_id = Some (wi_id r),
             mv_movement_type = IN, mv_quantity = sir_quantity req,
             mv_movement_date = now, mv_remarks = sir_remarks req\<rparr>]\<rparr>,
      Inr (r\<lparr>wi_quantity := wi_quantity r + sir_quantity req, wi_updated_at := now\<rparr>))"
proof -
  let ?r' = "r\<lparr>wi_quantity := wi_quantity r + sir_quantity req, wi_updated_at := now\<rparr>"
  let ?m = "in_movement now req ?r'"
  from f have rin: "r \<in> set (items d)" and pid: "wi_product_id r = sir_product_id req"
    by (simp_all add: first_item_at_Some)
  have body: "stock_in_body now req d = (add_movement ?m (save_item ?r' d), Inr ?r')"
    using assms by (simp add: stock_in_body_def Let_def)
  have ref: "refresh (add_movement ?m (save_item ?r' d)) ?r' = ?r'"
    by (rule refresh_saved) (use rin in auto)
  have its: "items (save_item ?r' d) = map (\<lambda>x. if x = r then ?r' else x) (items d)"
    using overwrite_row [OF ids rin, of ?r'] by (simp add: save_item_def)
  have "add_movement ?m (save_item ?r' d) =
        d\<lparr>items := map (\<lambda>x. if x = r then ?r' else x) (items d),
          movements := movements d @ [?m]\<rparr>"
    using its by (simp add: add_movement_def save_item_def)
  then show ?thesis
    using body ref pid by (simp add: stock_in_def session_begin_def in_movement_def)
qed

lemma stock_in_new:
  assumes "session_get_product d (sir_product_id req) = Some p"
      and f: "first_item_at d (sir_product_id req) (sir_location req) = None"
  shows "stock_in now req d =
     (d\<lparr>items := items d @
           [\<lparr>wi_id = next_item_id d, wi_product_id = sir_product_id req,
             wi_quantity = sir_quantity req, wi_location = sir_location req,
             wi_safety_stock = 5, wi_created_at = now, wi_updated_at = now\<rparr>],
         movements := movements d @
           [\<lparr>mv_product_id = sir_product_id req, mv_warehouse_item_id = Some (next_item_id d),
             mv_movement_type = IN, mv_quantity = sir_quantity req,
             mv_movement_date = now, mv_remarks = sir_remarks req\<rparr>]\<rparr>,
      Inr \<lparr>wi_id = next_item_id d, wi_product_id = sir_product_id req,
             wi_quantity = sir_quantity req, wi_location = sir_location req,
             wi_safety_stock = 5, wi_created_at = now, wi_updated_at = now\<rparr>)"
proof -
  let ?n = "\<lparr>wi_id = next_item_id d, wi_product_id = sir_product_id req,
             wi_quantity = sir_quantity req, wi_location = sir_location req,
             wi_safety_stock = 5, wi_created_at = now, wi_updated_at = now\<rparr>"
  let ?m = "in_movement now req ?n"
  have body: "stock_in_body now req d = (add_movement ?m (insert_item ?n d), Inr ?n)"
    using assms by (simp add: stock_in_body_def Let_def)
  have ref: "refresh (add_movement ?m (insert_item ?n d)) ?n = ?n"
    by (rule refresh_inserted) simp
  show ?thesis
    using body ref
    by (simp add: stock_in_def session_begin_def in_movement_def add_movement_def insert_item_def)
qed

lemma stock_in_found:
  assumes "distinct (map wi_id (items d))" and "0 < sir_quantity req"
  shows "((\<exists>e. snd (stock_in now req d) = Inl e)
            \<longleftrightarrow> session_get_product d (sir_product_id req) = None)
       \<and> (session_get_product d (sir_product_id req) = None
            \<longrightarrow> stock_in now req d = (d, Inl (ProductNotFoundException Default_product_not_found)))
       \<and> (session_get_product d (sir_product_id req) \<noteq> None \<longrightarrow>
            (\<forall>r rest. filter (\<lambda>i. wi_product_id i = sir_product_id req
                                   \<and> wi_location i = sir_location req) (items d) = r # rest \<longrightarrow>
               r \<in> set (items d) \<and> wi_product_id r = sir_product_id req
               \<and> wi_location r = sir_location req
               \<and> stock_in now req d =
                 (d\<lparr>items := map (\<lambda>x. if x = r
                          then r\<lparr>wi_quantity := wi_quantity r + sir_quantity req,
                                 wi_updated_at := now\<rparr>
                          else x) (items d),
                    movements := movements d @
                      [\<lparr>mv_product_id = sir_product_id req, mv_warehouse_item_id = Some (wi_id r),
                        mv_movement_type = IN, mv_quantity = sir_quantity req,
                        mv_movement_date = now, mv_remarks = sir_remarks req\<rparr>]\<rparr>,
                  Inr (r\<lparr>wi_quantity := wi_quantity r + sir_quantity req, wi_updated_at := now\<rparr>))
               \<and> length (filter (\<lambda>x. x = r) (items d)) = 1)
          \<and> (\<not> (\<exists>r\<in>set (items d). wi_product_id r = sir_product_id req
                                      \<and> wi_location r = sir_location req) \<longrightarrow>
               stock_in now req d =
                 (d\<lparr>items := items d @
                       [\<lparr>wi_id = next_item_id d, wi_product_id = sir_product_id req,
                         wi_quantity = sir_quantity req, wi_location = sir_location req,
                         wi_safety_stock = 5, wi_created_at = now, wi_updated_at = now\<rparr>],
                    movements := movements d @
                      [\<lparr>mv_product_id = sir_product_id req,
                        mv_warehouse_item_id = Some (next_item_id d),
                        mv_movement_type = IN, mv_quantity = sir_quantity req,
                        mv_movement_date = now, mv_remarks = sir_remarks req\<rparr>]\<rparr>,
                  Inr \<lparr>wi_id = next_item_id d, wi_product_id = sir_product_id req,
                       wi_quantity = sir_quantity req, wi_location = sir_location req,
                       wi_safety_stock = 5, wi_created_at = now, wi_updated_at = now\<rparr>)
               \<and> next_item_id d \<notin> wi_id ` set (items d)))"
proof (cases "session_get_product d (sir_product_id req)")
  case None
  with stock_in_unknown_product [OF None, of now] show ?thesis by simp
next
  case (Some p)
  note prod = this
  have fresh: "next_item_id d \<notin> wi_id ` set (items d)"
    using next_item_id_fresh [of _ d] by fastforce
  show ?thesis
  proof (cases "first_item_at d (sir_product_id req) (sir_location req)")
    case None
    note new = stock_in_new [OF prod None, of now]
    from None have no: "\<not> (\<exists>r\<in>set (items d). wi_product_id r = sir_product_id req
                                      \<and> wi_location r = sir_location req)"
      by (simp add: first_item_at_None)
    then have "filter (\<lambda>i. wi_product_id i = sir_product_id req
                            \<and> wi_location i = sir_location req) (items d) = []"
      by (auto simp: filter_empty_conv)
    with prod no new fresh show ?thesis by simp
  next
    case (Some r)
    then have rin: "r \<in> set (items d)" "wi_product_id r = sir_product_id req"
      "wi_location r = sir_location req"
      by (simp_all add: first_item_at_Some)
    from first_item_at_is_first [OF Some] obtain rest where
      fl: "filter (\<lambda>i. wi_product_id i = sir_product_id req
                        \<and> wi_location i = sir_location req) (items d) = r # rest"
      by blast
    note ex = stock_in_existing [OF assms(1) prod Some, of now]
    note once = row_occurs_once [OF assms(1) rin(1)]
    have exi: "\<exists>r\<in>set (items d). wi_product_id r = sir_product_id req
                                      \<and> wi_location r = sir_location req"
      using rin by blast
    from ex once fl rin exi prod show ?thesis by simp
  qed
qed

text \<open>
  C5. A stock-in of a positive quantity fails, with the product-not-found exception,
  exactly when no row of the product table has the product id. Otherwise, where the
  store has a record at (product, location), that one row gains exactly the quantity;
  where it has none, exactly one row is appended, with the quantity, the default safety
  stock of 5 and a new id. In both cases one IN movement of the quantity, linked to the
  resulting record, is appended, and no other row changes.
\<close>

theorem stock_in_cases:
  assumes "distinct (map wi_id (items d))" and "0 < sir_quantity req"
  shows "((\<exists>e. snd (stock_in now req d) = Inl e)
            \<longleftrightarrow> \<not> (\<exists>p\<in>set (products d). p_id p = sir_product_id req))
       \<and> (\<not> (\<exists>p\<in>set (products d). p_id p = sir_product_id req)
            \<longrightarrow> stock_in now req d = (d, Inl (ProductNotFoundException Default_product_not_found)))
       \<and> ((\<exists>p\<in>set (products d). p_id p = sir_product_id req) \<longrightarrow>
            (\<forall>r rest. filter (\<lambda>i. wi_product_id i = sir_product_id req
                                   \<and> wi_location i = sir_location req) (items d) = r # rest \<longrightarrow>
               r \<in> set (items d) \<and> wi_product_id r = sir_product_id req
               \<and> wi_location r = sir_location req
               \<and> stock_in now req d =
                 (d\<lparr>items := map (\<lambda>x. if x = r
                          then r\<lparr>wi_quantity := wi_quantity r + sir_quantity req,
                                 wi_updated_at := now\<rparr>
                          else x) (items d),
                    movements := movements d @
                      [\<lparr>mv_product_id = sir_product_id req, mv_warehouse_item_id = Some (wi_id r),
                        mv_movement_type = IN, mv_quantity = sir_quantity req,
                        mv_movement_date = now, mv_remarks = sir_remarks req\<rparr>]\<rparr>,
                  Inr (r\<lparr>wi_quantity := wi_quantity r + sir_quantity req, wi_updated_at := now\<rparr>))
               \<and> length (filter (\<lambda>x. x = r) (items d)) = 1)
          \<and> (\<not> (\<exists>r\<in>set (items d). wi_product_id r = sir_product_id req
                                      \<and> wi_location r = sir_location req) \<longrightarrow>
               stock_in now req d =
                 (d\<lparr>items := items d @
                       [\<lparr>wi_id = next_item_id d, wi_product_id = sir_product_id req,
                         wi_quantity = sir_quantity req, wi_location = sir_location req,
                         wi_safety_stock = 5, wi_created_at = now, wi_updated_at = now\<rparr>],
                    movements := movements d @
                      [\<lparr>mv_product_id = sir_product_id req,
                        mv_warehouse_item_id = Some (next_item_id d),
                        mv_movement_type = IN, mv_quantity = sir_quantity req,
                        mv_movement_date = now, mv_remarks = sir_remarks req\<rparr>]\<rparr>,
                  Inr \<lparr>wi_id = next_item_id d, wi_product_id = sir_product_id req,
                       wi_quantity = sir_quantity req, wi_location = sir_location req,
                       wi_safety_stock = 5, wi_created_at = now, wi_updated_at = now\<rparr>)
               \<and> next_item_id d \<notin> wi_id ` set (items d)))"
  by (rule stock_in_found [OF assms, of now, unfolded product_unknown_iff not_not])

theorem stock_in_cases_witness:
  "distinct (map wi_id (items store_r1_r2)) \<and> 0 < sir_quantity (in_request 1 3 ''A2'')
   \<and> (\<exists>p\<in>set (products store_r1_r2). p_id p = 1)
   \<and> filter (\<lambda>i. wi_product_id i = sir_product_id (in_request 1 3 ''A2'')
                  \<and> wi_location i = sir_location (in_request 1 3 ''A2'')) (items store_r1_r2)
        = [record_r2]
   \<and> stock_in 9 (in_request 1 3 ''A2'') store_r1_r2 =
       (store_r1_r2\<lparr>items := [record_r1, record_r2\<lparr>wi_quantity := 8, wi_updated_at := 9\<rparr>],
          movements := movements store_r1_r2 @
            [\<lparr>mv_product_id = 1, mv_warehouse_item_id = Some 2, mv_movement_type = IN,
              mv_quantity = 3, mv_movement_date = 9, mv_remarks = None\<rparr>]\<rparr>,
        Inr (record_r2\<lparr>wi_quantity := 8, wi_updated_at := 9\<rparr>))
   \<and> \<not> (\<exists>r\<in>set (items store_r1_r2). wi_product_id r = sir_product_id (in_request 1 3 ''C3'')
           \<and> wi_location r = sir_location (in_request 1 3 ''C3''))
   \<and> stock_in 9 (in_request 1 3 ''C3'') store_r1_r2 =
       (store_r1_r2\<lparr>items := [record_r1, record_r2,
            \<lparr>wi_id = 3, wi_product_id = 1, wi_quantity = 3, wi_location = ''C3'',
              wi_safety_stock = 5, wi_created_at = 9, wi_updated_at = 9\<rparr>],
          movements := movements store_r1_r2 @
            [\<lparr>mv_product_id = 1, mv_warehouse_item_id = Some 3, mv_movement_type = IN,
              mv_quantity = 3, mv_movement_date = 9, mv_remarks = None\<rparr>]\<rparr>,
        Inr \<lparr>wi_id = 3, wi_product_id = 1, wi_quantity = 3, wi_location = ''C3'',
              wi_safety_stock = 5, wi_created_at = 9, wi_updated_at = 9\<rparr>)"
proof -
  have rq: "sir_product_id (in_request 1 3 loc) = 1" "sir_quantity (in_request 1 3 loc) = 3"
    "sir_location (in_request 1 3 loc) = loc" "sir_remarks (in_request 1 3 loc) = None" for loc
    by (simp_all add: in_request_def)
  have h1: "distinct (map wi_id (items store_r1_r2))"
    by (simp add: store_r1_r2_def record_r1_def record_r2_def)
  have h2: "0 < sir_quantity (in_request 1 3 ''A2'')" "0 < sir_quantity (in_request 1 3 ''C3'')"
    by (simp_all add: rq)
  have p: "(\<exists>p\<in>set (products store_r1_r2). p_id p = 1)"
    by (simp add: store_r1_r2_def widget_def)
  have fl: "filter (\<lambda>i. wi_product_id i = sir_product_id (in_request 1 3 ''A2'')
                  \<and> wi_location i = sir_location (in_request 1 3 ''A2'')) (items store_r1_r2)
        = [record_r2]"
    by (simp add: rq store_r1_r2_def) (simp add: record_r1_def record_r2_def)
  have none: "\<not> (\<exists>r\<in>set (items store_r1_r2). wi_product_id r = sir_product_id (in_request 1 3 ''C3'')
           \<and> wi_location r = sir_location (in_request 1 3 ''C3''))"
    by (simp add: rq store_r1_r2_def record_r1_def record_r2_def)
  have nid: "next_item_id store_r1_r2 = 3"
    by (simp add: next_item_id_def store_r1_r2_def record_r1_def record_r2_def)
  have its: "items store_r1_r2 = [record_r1, record_r2]"
    by (simp add: store_r1_r2_def)
  have ne: "record_r1 \<noteq> record_r2"
    by (simp add: record_r1_def record_r2_def)
  have pne: "\<exists>p\<in>set (products store_r1_r2). p_id p = sir_product_id (in_request 1 3 loc)" for loc
    using p by (simp add: rq)
  note t = stock_in_cases [OF h1 h2(1), of 9, THEN conjunct2, THEN conjunct2, THEN mp,
      OF pne, THEN conjunct1, rule_format, OF fl, unfolded rq]
  from t
  have "stock_in 9 (in_request 1 3 ''A2'') store_r1_r2 =
         (store_r1_r2\<lparr>items := map (\<lambda>x. if x = record_r2
                          then record_r2\<lparr>wi_quantity := wi_quantity record_r2 + 3,
                                 wi_updated_at := 9\<rparr>
                          else x) (items store_r1_r2),
            movements := movements store_r1_r2 @
              [\<lparr>mv_product_id = 1, mv_warehouse_item_id = Some (wi_id record_r2),
                mv_movement_type = IN, mv_quantity = 3,
                mv_movement_date = 9, mv_remarks = None\<rparr>]\<rparr>,
          Inr (record_r2\<lparr>wi_quantity := wi_quantity record_r2 + 3, wi_updated_at := 9\<rparr>))"
    by (elim conjE)
  moreover have "map (\<lambda>x. if x = record_r2
                          then record_r2\<lparr>wi_quantity := wi_quantity record_r2 + 3,
                                 wi_updated_at := 9\<rparr>
                          else x) (items store_r1_r2) =
        [record_r1, record_r2\<lparr>wi_quantity := 8, wi_updated_at := 9\<rparr>]"
    using ne by (simp add: store_r1_r2_def) (simp add: record_r2_def)
  moreover have "wi_quantity record_r2 + 3 = 8" "wi_id record_r2 = 2"
    by (simp_all add: record_r2_def)
  ultimately have a: "stock_in 9 (in_request 1 3 ''A2'') store_r1_r2 =
       (store_r1_r2\<lparr>items := [record_r1, record_r2\<lparr>wi_quantity := 8, wi_updated_at := 9\<rparr>],
          movements := movements store_r1_r2 @
            [\<lparr>mv_product_id = 1, mv_warehouse_item_id = Some 2, mv_movement_type = IN,
              mv_quantity = 3, mv_movement_date = 9, mv_remarks = None\<rparr>]\<rparr>,
        Inr (record_r2\<lparr>wi_quantity := 8, wi_updated_at := 9\<rparr>))"
    by simp
  note u = stock_in_cases [OF h1 h2(2), of 9, THEN conjunct2, THEN conjunct2, THEN mp,
      OF pne, THEN conjunct2, THEN mp, OF none, THEN conjunct1, unfolded rq]
  from u
  have "stock_in 9 (in_request 1 3 ''C3'') store_r1_r2 =
       (store_r1_r2\<lparr>items := items store_r1_r2 @
            [\<lparr>wi_id = next_item_id store_r1_r2, wi_product_id = 1, wi_quantity = 3,
              wi_location = ''C3'', wi_safety_stock = 5, wi_created_at = 9, wi_updated_at = 9\<rparr>],
          movements := movements store_r1_r2 @
            [\<lparr>mv_product_id = 1, mv_warehouse_item_id = Some (next_item_id store_r1_r2),
              mv_movement_type = IN, mv_quantity = 3, mv_movement_date = 9, mv_remarks = None\<rparr>]\<rparr>,
        Inr \<lparr>wi_id = next_item_id store_r1_r2, wi_product_id = 1, wi_quantity = 3,
              wi_location = ''C3'', wi_safety_stock = 5, wi_created_at = 9, wi_updated_at = 9\<rparr>)" .
  then have b: "stock_in 9 (in_request 1 3 ''C3'') store_r1_r2 =
       (store_r1_r2\<lparr>items := [record_r1, record_r2,
            \<lparr>wi_id = 3, wi_product_id = 1, wi_quantity = 3, wi_location = ''C3'',
              wi_safety_stock = 5, wi_created_at = 9, wi_updated_at = 9\<rparr>],
          movements := movements store_r1_r2 @
            [\<lparr>mv_product_id = 1, mv_warehouse_item_id = Some 3, mv_movement_type = IN,
              mv_quantity = 3, mv_movement_date = 9, mv_remarks = None\<rparr>]\<rparr>,
        Inr \<lparr>wi_id = 3, wi_product_id = 1, wi_quantity = 3, wi_location = ''C3'',
              wi_safety_stock = 5, wi_created_at = 9, wi_updated_at = 9\<rparr>)"
    by (simp add: nid its)
  show ?thesis
    by (intro conjI h1 h2(1) p fl a none b)
qed

section \<open>The error of a stock-out at a location without a record\<close>

text \<open>
  In the example store the product 1 exists and has no record at Z9, and no product 2
  exists: the stock-out at Z9 raises the same exception class for both, the
  product-not-found exception. No location-not-found error exists in
  \<^verbatim>\<open>app/exceptions.py\<close>.
\<close>

theorem absent_location_counterexample:
  "snd (stock_out 7 (out_request 1 1 (Some ''Z9'')) store_b2) =
     Inl (ProductNotFoundException (No_record_at_location ''Z9''))
   \<and> snd (stock_out 7 (out_request 2 1 (Some ''Z9'')) store_b2) =
     Inl (ProductNotFoundException Default_product_not_found)"
  by (simp add: stock_out_def session_begin_def stock_out_body_def session_get_product_def
        first_item_at_def truthy_def store_b2_def widget_def record_b2_def out_request_def)

text \<open>
  C9, as the code has it. A targeted stock-out on an existing product with no stock
  record at the location fails with the product-not-found exception, the class that an
  unknown product id raises too; the two differ in their detail message only (the one
  names the location, the other is the class default).
\<close>

theorem absent_location_error:
  assumes "session_get_product d (sor_product_id req) = Some p"
      and "sor_location req = Some loc" and "loc \<noteq> []"
      and "\<not> (\<exists>r\<in>set (items d). wi_product_id r = sor_product_id req \<and> wi_location r = loc)"
      and "session_get_product d (sor_product_id req') = None"
  shows "stock_out now req d = (d, Inl (ProductNotFoundException (No_record_at_location loc)))
       \<and> stock_out now req' d = (d, Inl (ProductNotFoundException Default_product_not_found))
       \<and> No_record_at_location loc \<noteq> Default_product_not_found"
proof -
  from assms(4) have "first_item_at d (sor_product_id req) loc = None"
    by (simp add: first_item_at_None)
  from stock_out_targeted_absent [OF assms(1,2,3) this, of now]
       stock_out_unknown_product [OF assms(5), of now]
  show ?thesis by simp
qed

theorem absent_location_error_witness:
  "session_get_product store_b2 (sor_product_id (out_request 1 1 (Some ''Z9''))) = Some widget
   \<and> sor_location (out_request 1 1 (Some ''Z9'')) = Some ''Z9'' \<and> ''Z9'' \<noteq> []
   \<and> \<not> (\<exists>r\<in>set (items store_b2). wi_product_id r = sor_product_id (out_request 1 1 (Some ''Z9''))
         \<and> wi_location r = ''Z9'')
   \<and> session_get_product store_b2 (sor_product_id (out_request 2 1 (Some ''Z9''))) = None
   \<and> stock_out 7 (out_request 1 1 (Some ''Z9'')) store_b2 =
        (store_b2, Inl (ProductNotFoundException (No_record_at_location ''Z9'')))
   \<and> stock_out 7 (out_request 2 1 (Some ''Z9'')) store_b2 =
        (store_b2, Inl (ProductNotFoundException Default_product_not_found))"
proof -
  have h1: "session_get_product store_b2 (sor_product_id (out_request 1 1 (Some ''Z9''))) = Some widget"
    by (simp add: session_get_product_def store_b2_def widget_def out_request_def)
  have h2: "sor_location (out_request 1 1 (Some ''Z9'')) = Some ''Z9''"
    by (simp add: out_request_def)
  have h3: "''Z9'' \<noteq> []" by simp
  have h4: "\<not> (\<exists>r\<in>set (items store_b2). wi_product_id r = sor_product_id (out_request 1 1 (Some ''Z9''))
         \<and> wi_location r = ''Z9'')"
    by (simp add: store_b2_def record_b2_def)
  have h5: "session_get_product store_b2 (sor_product_id (out_request 2 1 (Some ''Z9''))) = None"
    by (simp add: session_get_product_def store_b2_def widget_def out_request_def)
  from absent_location_error [OF h1 h2 h3 h4 h5, of 7] h1 h2 h3 h4 h5 show ?thesis by simp
qed

section \<open>Untargeted stock-out\<close>

subsection \<open>The allocation of the specification\<close>

lemma spec_allocation_keys: "(r, a) \<in> set (spec_allocation rs n) \<Longrightarrow> r \<in> set rs"
  by (induction rs arbitrary: n) (auto split: if_splits)

lemma spec_allocation_prefix:
  "map fst (spec_allocation rs n) = take (length (spec_allocation rs n)) rs"
  by (induction rs arbitrary: n) auto

lemma spec_allocation_amounts:
  "0 \<le> n \<Longrightarrow> \<forall>r\<in>set rs. 0 < wi_quantity r \<Longrightarrow> (r, a) \<in> set (spec_allocation rs n) \<Longrightarrow>
   0 < a \<and> a \<le> wi_quantity r \<and> a \<le> n"
proof (induction rs arbitrary: n)
  case Nil
  then show ?case by simp
next
  case (Cons x xs)
  show ?case
  proof (cases "n = 0")
    case True
    with Cons.prems show ?thesis by simp
  next
    case False
    with Cons.prems have pos: "0 < n" by simp
    let ?m = "min (wi_quantity x) n"
    from Cons.prems False
    consider "r = x \<and> a = ?m" | "(r, a) \<in> set (spec_allocation xs (n - ?m))"
      by auto
    then show ?thesis
    proof cases
      case 1
      with pos Cons.prems(2) show ?thesis by simp
    next
      case 2
      have "0 \<le> n - ?m" by simp
      from Cons.IH [OF this _ 2] Cons.prems(2) have "0 < a \<and> a \<le> wi_quantity r \<and> a \<le> n - ?m"
        by simp
      moreover have "0 < ?m" using pos Cons.prems(2) by simp
      ultimately show ?thesis by linarith
    qed
  qed
qed

lemma spec_allocation_total:
  "0 \<le> n \<Longrightarrow> \<forall>r\<in>set rs. 0 < wi_quantity r \<Longrightarrow> n \<le> sum_list (map wi_quantity rs) \<Longrightarrow>
   sum_list (map snd (spec_allocation rs n)) = n"
proof (induction rs arbitrary: n)
  case Nil
  then show ?case by simp
next
  case (Cons x xs)
  show ?case
  proof (cases "n = 0")
    case True
    then show ?thesis by simp
  next
    case False
    let ?m = "min (wi_quantity x) n"
    have nn: "0 \<le> n - ?m" by simp
    have "0 \<le> sum_list (map wi_quantity xs)"
      using Cons.prems(2) by (intro sum_list_nonneg) auto
    with Cons.prems(3) have le: "n - ?m \<le> sum_list (map wi_quantity xs)"
      by (simp add: min_def)
    from Cons.IH [OF nn _ le] Cons.prems(2)
    have "sum_list (map snd (spec_allocation xs (n - ?m))) = n - ?m" by simp
    with False show ?thesis by simp
  qed
qed

lemma spec_allocation_nonempty: "n \<noteq> 0 \<Longrightarrow> rs \<noteq> [] \<Longrightarrow> spec_allocation rs n \<noteq> []"
  by (cases rs) auto

subsection \<open>The loop of the untargeted branch\<close>

lemma deduct_loop_movements:
  "movements (fst (deduct_loop now req avail n (d, u))) =
   movements d @ allocation_movements now req (spec_allocation avail n)"
  by (induction avail arbitrary: n d u)
     (simp_all add: allocation_movements_def Let_def add_movement_def save_item_def out_movement_def)

lemma deduct_loop_updated:
  "snd (deduct_loop now req avail n (d, u)) =
   u @ map (\<lambda>(r, a). r\<lparr>wi_quantity := wi_quantity r - a, wi_updated_at := now\<rparr>)
         (spec_allocation avail n)"
  by (induction avail arbitrary: n d u) (simp_all add: Let_def)

lemma deduct_loop_products:
  "products (fst (deduct_loop now req avail n (d, u))) = products d"
  by (induction avail arbitrary: n d u) (simp_all add: Let_def add_movement_def save_item_def)

lemma map_of_allocation_None:
  "x \<notin> set rs \<Longrightarrow> map_of (spec_allocation rs n) x = None"
  by (meson map_of_SomeD not_Some_eq spec_allocation_keys)

lemma deduct_loop_items:
  assumes "distinct (map wi_id (items d))" and "set avail \<subseteq> set (items d)"
      and "distinct (map wi_id avail)"
  shows "items (fst (deduct_loop now req avail n (d, u))) =
         allocation_rows now (spec_allocation avail n) (items d)"
  using assms
proof (induction avail arbitrary: n d u)
  case Nil
  then show ?case by (simp add: allocation_rows_def)
next
  case (Cons item rest)
  show ?case
  proof (cases "n = 0")
    case True
    then show ?thesis by (simp add: allocation_rows_def)
  next
    case False
    let ?a = "min (wi_quantity item) n"
    let ?item' = "item\<lparr>wi_quantity := wi_quantity item - ?a, wi_updated_at := now\<rparr>"
    let ?d2 = "add_movement (out_movement now req ?item' ?a) (save_item ?item' d)"
    from Cons.prems have iin: "item \<in> set (items d)" by simp
    have its: "items ?d2 = map (\<lambda>x. if x = item then ?item' else x) (items d)"
      using overwrite_row [OF Cons.prems(1) iin, of ?item']
      by (simp add: add_movement_def save_item_def)
    have ids: "map wi_id (items ?d2) = map wi_id (items d)"
      by (simp add: its)
    have d1: "distinct (map wi_id (items ?d2))"
      using Cons.prems(1) ids by simp
    have nid: "wi_id item \<notin> wi_id ` set rest"
      using Cons.prems(3) by simp
    have notin: "item \<notin> set rest" "?item' \<notin> set rest"
    proof -
      show "item \<notin> set rest" using nid by blast
      have "wi_id ?item' = wi_id item" by simp
      with nid have "wi_id ?item' \<notin> wi_id ` set rest" by simp
      then show "?item' \<notin> set rest" by blast
    qed
    have sub: "set rest \<subseteq> set (items ?d2)"
    proof
      fix x assume x: "x \<in> set rest"
      with Cons.prems(2) have "x \<in> set (items d)" by auto
      moreover from x notin have "x \<noteq> item" by auto
      ultimately show "x \<in> set (items ?d2)" by (auto simp: its)
    qed
    from Cons.prems(3) have d3: "distinct (map wi_id rest)" by simp
    have ih: "items (fst (deduct_loop now req rest (n - ?a) (?d2, u @ [?item']))) =
              allocation_rows now (spec_allocation rest (n - ?a)) (items ?d2)"
      by (rule Cons.IH [OF d1 sub d3])
    have "allocation_rows now (spec_allocation rest (n - ?a)) (items ?d2) =
          allocation_rows now ((item, ?a) # spec_allocation rest (n - ?a)) (items d)"
      using notin by (auto simp: allocation_rows_def its map_of_allocation_None)
    with ih False show ?thesis by (simp add: Let_def)
  qed
qed

subsection \<open>The available records and the returned record\<close>

lemma available_items_set:
  "set (available_items d pid) = {i \<in> set (items d). wi_product_id i = pid \<and> 0 < wi_quantity i}"
  by (auto simp: available_items_def)

lemma available_items_sorted: "sorted (map wi_id (available_items d pid))"
  by (simp add: available_items_def)

lemma available_items_distinct:
  "distinct (map wi_id (items d)) \<Longrightarrow> distinct (map wi_id (available_items d pid))"
proof -
  assume "distinct (map wi_id (items d))"
  then have "distinct (items d)" and inj: "inj_on wi_id (set (items d))"
    by (simp_all add: distinct_map)
  then have "distinct (filter (\<lambda>i. wi_product_id i = pid \<and> wi_quantity i > 0) (items d))"
    by simp
  moreover have "inj_on wi_id (set (filter (\<lambda>i. wi_product_id i = pid \<and> wi_quantity i > 0) (items d)))"
    by (rule inj_on_subset [OF inj]) auto
  ultimately show ?thesis
    by (simp add: available_items_def distinct_map)
qed

lemma find_by_id:
  "distinct (map wi_id xs) \<Longrightarrow> r \<in> set xs \<Longrightarrow> find (\<lambda>x. wi_id x = wi_id r) xs = Some r"
proof (induction xs)
  case Nil
  then show ?case by simp
next
  case (Cons a xs)
  then show ?case by (cases "a = r") (auto simp: image_iff)
qed

lemma find_map_same_id:
  "(\<And>x. wi_id (f x) = wi_id x) \<Longrightarrow>
   find (\<lambda>r. wi_id r = k) (map f xs) = map_option f (find (\<lambda>r. wi_id r = k) xs)"
  by (induction xs) auto

lemma refresh_allocated:
  assumes "distinct (map wi_id (items d))" and "r \<in> set (items d)"
      and "items d' = allocation_rows now ((r, a) # rest) (items d)"
  shows "refresh d' (r\<lparr>wi_quantity := wi_quantity r - a, wi_updated_at := now\<rparr>) =
         r\<lparr>wi_quantity := wi_quantity r - a, wi_updated_at := now\<rparr>"
proof -
  let ?f = "\<lambda>x. case map_of ((r, a) # rest) x of
                 None \<Rightarrow> x
               | Some a \<Rightarrow> x\<lparr>wi_quantity := wi_quantity x - a, wi_updated_at := now\<rparr>"
  have same: "\<And>x. wi_id (?f x) = wi_id x" by (simp split: option.splits)
  have "find (\<lambda>x. wi_id x = wi_id r) (map ?f (items d)) =
        map_option ?f (find (\<lambda>x. wi_id x = wi_id r) (items d))"
    using same by (rule find_map_same_id)
  also have "\<dots> = Some (?f r)" using find_by_id [OF assms(1,2)] by simp
  finally show ?thesis using assms(3) by (simp add: refresh_def allocation_rows_def)
qed

lemma db_eqI:
  "products a = products b \<Longrightarrow> items a = items b \<Longrightarrow> movements a = movements b \<Longrightarrow> a = (b::db)"
  by simp

lemma deduct_loop_allocation:
  assumes ids: "distinct (map wi_id (items d))"
      and prod: "session_get_product d (sor_product_id req) = Some p"
      and loc: "sor_location req = None"
      and pos: "0 < sor_quantity req"
      and enough: "sor_quantity req \<le> sum_list (map wi_quantity (available_items d (sor_product_id req)))"
  shows "stock_out now req d =
           (d\<lparr>items := allocation_rows now
                  (spec_allocation (available_items d (sor_product_id req)) (sor_quantity req))
                  (items d),
               movements := movements d @ allocation_movements now req
                  (spec_allocation (available_items d (sor_product_id req)) (sor_quantity req))\<rparr>,
            Inr (Some (hd (map (\<lambda>(r, a). r\<lparr>wi_quantity := wi_quantity r - a, wi_updated_at := now\<rparr>)
                  (spec_allocation (available_items d (sor_product_id req)) (sor_quantity req))))))
       \<and> spec_allocation (available_items d (sor_product_id req)) (sor_quantity req) \<noteq> []
       \<and> sum_list (map snd (spec_allocation (available_items d (sor_product_id req))
                              (sor_quantity req))) = sor_quantity req
       \<and> (\<forall>(r, a)\<in>set (spec_allocation (available_items d (sor_product_id req)) (sor_quantity req)).
              0 < a \<and> a \<le> wi_quantity r)
       \<and> map fst (spec_allocation (available_items d (sor_product_id req)) (sor_quantity req)) =
           take (length (spec_allocation (available_items d (sor_product_id req)) (sor_quantity req)))
             (available_items d (sor_product_id req))
       \<and> sorted (map wi_id (available_items d (sor_product_id req)))
       \<and> set (available_items d (sor_product_id req)) =
           {i \<in> set (items d). wi_product_id i = sor_product_id req \<and> 0 < wi_quantity i}"
proof -
  let ?avail = "available_items d (sor_product_id req)"
  let ?A = "spec_allocation ?avail (sor_quantity req)"
  let ?up = "\<lambda>(r, a). r\<lparr>wi_quantity := wi_quantity r - a, wi_updated_at := now\<rparr>"
  have avail_pos: "\<forall>r\<in>set ?avail. 0 < wi_quantity r"
    by (simp add: available_items_set)
  have avail_ne: "?avail \<noteq> []"
  proof
    assume "?avail = []"
    with enough pos show False by simp
  qed
  have A_ne: "?A \<noteq> []"
    using pos avail_ne by (intro spec_allocation_nonempty) auto
  have sub: "set ?avail \<subseteq> set (items d)"
    by (auto simp: available_items_set)
  have dav: "distinct (map wi_id ?avail)"
    by (rule available_items_distinct [OF ids])
  obtain d' u where loop: "deduct_loop now req ?avail (sor_quantity req) (d, []) = (d', u)"
    by (cases "deduct_loop now req ?avail (sor_quantity req) (d, [])")
  have its: "items d' = allocation_rows now ?A (items d)"
    using deduct_loop_items [OF ids sub dav, of now req "sor_quantity req" "[]"] loop by simp
  have mvs: "movements d' = movements d @ allocation_movements now req ?A"
    using deduct_loop_movements [of now req ?avail "sor_quantity req" d "[]"] loop by simp
  have prs: "products d' = products d"
    using deduct_loop_products [of now req ?avail "sor_quantity req" d "[]"] loop by simp
  have upd: "u = map ?up ?A"
    using deduct_loop_updated [of now req ?avail "sor_quantity req" d "[]"] loop by simp
  have d'_eq: "d' = d\<lparr>items := allocation_rows now ?A (items d),
                       movements := movements d @ allocation_movements now req ?A\<rparr>"
    by (rule db_eqI) (simp_all add: its mvs prs)
  obtain r a rest where A: "?A = (r, a) # rest"
    using A_ne by (cases ?A) auto
  then have "(r, a) \<in> set ?A" by simp
  then have "r \<in> set ?avail" by (rule spec_allocation_keys)
  with sub have rin: "r \<in> set (items d)" by auto
  have u_eq: "u = r\<lparr>wi_quantity := wi_quantity r - a, wi_updated_at := now\<rparr> # map ?up rest"
    using upd A by simp
  have ref: "refresh d' (r\<lparr>wi_quantity := wi_quantity r - a, wi_updated_at := now\<rparr>) =
             r\<lparr>wi_quantity := wi_quantity r - a, wi_updated_at := now\<rparr>"
    using its A by (intro refresh_allocated [OF ids rin]) simp
  have body: "stock_out_body now req d =
              (d', Inr (Some (r\<lparr>wi_quantity := wi_quantity r - a, wi_updated_at := now\<rparr>)))"
    using prod loc avail_ne enough loop u_eq
    by (simp add: stock_out_body_def truthy_def Let_def)
  have out: "stock_out now req d =
             (d', Inr (Some (r\<lparr>wi_quantity := wi_quantity r - a, wi_updated_at := now\<rparr>)))"
    using body ref by (simp add: stock_out_def session_begin_def)
  have hd_eq: "hd (map ?up ?A) = r\<lparr>wi_quantity := wi_quantity r - a, wi_updated_at := now\<rparr>"
    using A by simp
  have c1: "stock_out now req d =
           (d\<lparr>items := allocation_rows now ?A (items d),
               movements := movements d @ allocation_movements now req ?A\<rparr>,
            Inr (Some (hd (map ?up ?A))))"
    using out d'_eq hd_eq by simp
  have c3: "sum_list (map snd ?A) = sor_quantity req"
    using pos avail_pos enough by (intro spec_allocation_total) auto
  have c4: "\<forall>(r, a)\<in>set ?A. 0 < a \<and> a \<le> wi_quantity r"
  proof clarify
    fix r a assume "(r, a) \<in> set ?A"
    from spec_allocation_amounts [OF _ avail_pos this] pos
    show "0 < a \<and> a \<le> wi_quantity r" by simp
  qed
  have c5: "map fst ?A = take (length ?A) ?avail"
    by (rule spec_allocation_prefix)
  show ?thesis
    by (intro conjI c1 A_ne c3 c4 c5 available_items_sorted available_items_set)
qed

subsection \<open>The records of the store, in id order\<close>

lemma sum_list_insort_key:
  "sum_list (map f (insort_key g x xs)) = (f x :: int) + sum_list (map f xs)"
  by (induction xs) auto

lemma sum_list_sort_key:
  "sum_list (map f (sort_key g xs)) = (sum_list (map f xs) :: int)"
  by (induction xs) (simp_all add: sum_list_insort_key)

lemma available_items_total:
  "sum_list (map wi_quantity (available_items d pid)) =
   sum_list (map wi_quantity (filter (\<lambda>i. wi_product_id i = pid \<and> 0 < wi_quantity i) (items d)))"
  by (simp add: available_items_def sum_list_sort_key)

lemma ordered_records_unique:
  assumes ids: "distinct (map wi_id (items d))"
      and srt: "sorted (map wi_id rs)" and dis: "distinct rs"
      and st: "set rs = {i \<in> set (items d). wi_product_id i = pid \<and> 0 < wi_quantity i}"
  shows "rs = available_items d pid"
proof -
  let ?av = "available_items d pid"
  from ids have inj: "inj_on wi_id (set (items d))" by (simp add: distinct_map)
  have sets: "set rs = set ?av" using st by (simp add: available_items_set)
  have sub: "set rs \<union> set ?av \<subseteq> set (items d)" using st sets by auto
  have inj2: "inj_on wi_id (set rs \<union> set ?av)" by (rule inj_on_subset [OF inj sub])
  then have "inj_on wi_id (set rs)" by (rule inj_on_subset) simp
  with dis have d1: "distinct (map wi_id rs)" by (simp add: distinct_map)
  have d2: "distinct (map wi_id ?av)" by (rule available_items_distinct [OF ids])
  have s2: "sorted (map wi_id ?av)" by (rule available_items_sorted)
  have "set (map wi_id rs) = set (map wi_id ?av)" using sets by simp
  with srt d1 s2 d2 have "map wi_id rs = map wi_id ?av"
    by (intro sorted_distinct_set_unique)
  with inj2 show ?thesis by (simp add: inj_on_map_eq_map)
qed

lemma untargeted_allocation_found:
  assumes ids: "distinct (map wi_id (items d))"
      and prod: "session_get_product d (sor_product_id req) = Some p"
      and loc: "sor_location req = None"
      and pos: "0 < sor_quantity req"
      and enough: "sor_quantity req \<le> sum_list (map wi_quantity
                     (filter (\<lambda>i. wi_product_id i = sor_product_id req \<and> 0 < wi_quantity i) (items d)))"
      and srt: "sorted (map wi_id rs)" and dis: "distinct rs"
      and st: "set rs = {i \<in> set (items d). wi_product_id i = sor_product_id req \<and> 0 < wi_quantity i}"
  shows "stock_out now req d =
           (d\<lparr>items := allocation_rows now (spec_allocation rs (sor_quantity req)) (items d),
               movements := movements d @
                  allocation_movements now req (spec_allocation rs (sor_quantity req))\<rparr>,
            Inr (Some (hd (map (\<lambda>(r, a). r\<lparr>wi_quantity := wi_quantity r - a, wi_updated_at := now\<rparr>)
                  (spec_allocation rs (sor_quantity req))))))
       \<and> spec_allocation rs (sor_quantity req) \<noteq> []
       \<and> sum_list (map snd (spec_allocation rs (sor_quantity req))) = sor_quantity req
       \<and> (\<forall>(r, a)\<in>set (spec_allocation rs (sor_quantity req)). 0 < a \<and> a \<le> wi_quantity r)
       \<and> map fst (spec_allocation rs (sor_quantity req)) =
           take (length (spec_allocation rs (sor_quantity req))) rs"
proof -
  have rs: "rs = available_items d (sor_product_id req)"
    by (rule ordered_records_unique [OF ids srt dis st])
  have en: "sor_quantity req \<le> sum_list (map wi_quantity (available_items d (sor_product_id req)))"
    using enough by (simp add: available_items_total)
  note t = deduct_loop_allocation [OF ids prod loc pos en, of now]
  show ?thesis
    unfolding rs using t by blast
qed

text \<open>
  C1. An untargeted stock-out (location omitted) of a positive quantity on an existing
  product, whose stock records with a positive quantity hold at least that quantity in
  total. Let \<open>rs\<close> be those records of the store in ascending id order. The
  allocation takes \<open>min(record.quantity, remaining)\<close> from each record of \<open>rs\<close>
  in turn until nothing remains (a prefix of \<open>rs\<close>, every amount positive and at
  most the record's quantity, the amounts adding up to the request), every touched row
  loses exactly its amount, exactly one OUT movement per touched record is appended,
  carrying that amount, in the same order, and the first touched record is returned.
  The function is deterministic, so the same store and request give the same split.
\<close>

theorem untargeted_stock_out_allocation:
  assumes ids: "distinct (map wi_id (items d))"
      and prod: "\<exists>p\<in>set (products d). p_id p = sor_product_id req"
      and loc: "sor_location req = None"
      and pos: "0 < sor_quantity req"
      and enough: "sor_quantity req \<le> sum_list (map wi_quantity
                     (filter (\<lambda>i. wi_product_id i = sor_product_id req \<and> 0 < wi_quantity i) (items d)))"
      and srt: "sorted (map wi_id rs)" and dis: "distinct rs"
      and st: "set rs = {i \<in> set (items d). wi_product_id i = sor_product_id req \<and> 0 < wi_quantity i}"
  shows "stock_out now req d =
           (d\<lparr>items := allocation_rows now (spec_allocation rs (sor_quantity req)) (items d),
               movements := movements d @
                  allocation_movements now req (spec_allocation rs (sor_quantity req))\<rparr>,
            Inr (Some (hd (map (\<lambda>(r, a). r\<lparr>wi_quantity := wi_quantity r - a, wi_updated_at := now\<rparr>)
                  (spec_allocation rs (sor_quantity req))))))
       \<and> spec_allocation rs (sor_quantity req) \<noteq> []
       \<and> sum_list (map snd (spec_allocation rs (sor_quantity req))) = sor_quantity req
       \<and> (\<forall>(r, a)\<in>set (spec_allocation rs (sor_quantity req)). 0 < a \<and> a \<le> wi_quantity r)
       \<and> map fst (spec_allocation rs (sor_quantity req)) =
           take (length (spec_allocation rs (sor_quantity req))) rs"
proof -
  from product_resolves [OF prod] obtain p where
    "session_get_product d (sor_product_id req) = Some p" ..
  from untargeted_allocation_found [OF ids this loc pos enough srt dis st] show ?thesis .
qed

theorem untargeted_stock_out_allocation_witness:
  "distinct (map wi_id (items store_r1_r2))
   \<and> (\<exists>p\<in>set (products store_r1_r2). p_id p = sor_product_id (out_request 1 7 None))
   \<and> sor_location (out_request 1 7 None) = None
   \<and> 0 < sor_quantity (out_request 1 7 None)
   \<and> sor_quantity (out_request 1 7 None)
        \<le> sum_list (map wi_quantity
             (filter (\<lambda>i. wi_product_id i = sor_product_id (out_request 1 7 None) \<and> 0 < wi_quantity i)
                (items store_r1_r2)))
   \<and> sorted (map wi_id [record_r1, record_r2]) \<and> distinct [record_r1, record_r2]
   \<and> set [record_r1, record_r2] =
        {i \<in> set (items store_r1_r2).
           wi_product_id i = sor_product_id (out_request 1 7 None) \<and> 0 < wi_quantity i}
   \<and> spec_allocation [record_r1, record_r2] 7 = [(record_r1, 5), (record_r2, 2)]
   \<and> stock_out 3 (out_request 1 7 None) store_r1_r2 =
       (store_r1_r2
          \<lparr>items := [record_r1\<lparr>wi_quantity := 0, wi_updated_at := 3\<rparr>,
                     record_r2\<lparr>wi_quantity := 3, wi_updated_at := 3\<rparr>],
           movements := movements store_r1_r2 @
             [\<lparr>mv_product_id = 1, mv_warehouse_item_id = Some 1, mv_movement_type = OUT,
               mv_quantity = 5, mv_movement_date = 3, mv_remarks = None\<rparr>,
              \<lparr>mv_product_id = 1, mv_warehouse_item_id = Some 2, mv_movement_type = OUT,
               mv_quantity = 2, mv_movement_date = 3, mv_remarks = None\<rparr>]\<rparr>,
        Inr (Some (record_r1\<lparr>wi_quantity := 0, wi_updated_at := 3\<rparr>)))"
proof -
  have al: "spec_allocation [record_r1, record_r2] 7 = [(record_r1, 5), (record_r2, 2)]"
    by (simp add: record_r1_def record_r2_def)
  have h1: "distinct (map wi_id (items store_r1_r2))"
    by (simp add: store_r1_r2_def record_r1_def record_r2_def)
  have h2: "(\<exists>p\<in>set (products store_r1_r2). p_id p = sor_product_id (out_request 1 7 None))"
    by (simp add: store_r1_r2_def widget_def out_request_def)
  have h3: "sor_location (out_request 1 7 None) = None"
    by (simp add: out_request_def)
  have h4: "0 < sor_quantity (out_request 1 7 None)"
    by (simp add: out_request_def)
  have rq: "sor_product_id (out_request 1 7 None) = 1" "sor_quantity (out_request 1 7 None) = 7"
    "sor_remarks (out_request 1 7 None) = None"
    by (simp_all add: out_request_def)
  have h5: "sor_quantity (out_request 1 7 None)
        \<le> sum_list (map wi_quantity
             (filter (\<lambda>i. wi_product_id i = sor_product_id (out_request 1 7 None) \<and> 0 < wi_quantity i)
                (items store_r1_r2)))"
    by (simp add: rq store_r1_r2_def record_r1_def record_r2_def)
  have ne: "record_r1 \<noteq> record_r2"
    by (simp add: record_r1_def record_r2_def)
  have h6: "sorted (map wi_id [record_r1, record_r2])"
    by (simp add: record_r1_def record_r2_def)
  have h7: "distinct [record_r1, record_r2]"
    using ne by simp
  have h8: "set [record_r1, record_r2] =
        {i \<in> set (items store_r1_r2).
           wi_product_id i = sor_product_id (out_request 1 7 None) \<and> 0 < wi_quantity i}"
    by (auto simp: rq store_r1_r2_def record_r1_def record_r2_def)
  note t = untargeted_stock_out_allocation [OF h1 h2 h3 h4 h5 h6 h7 h8, of 3, THEN conjunct1,
      unfolded rq al]
  from t
  have "stock_out 3 (out_request 1 7 None) store_r1_r2 =
       (store_r1_r2
          \<lparr>items := allocation_rows 3 [(record_r1, 5), (record_r2, 2)] (items store_r1_r2),
           movements := movements store_r1_r2 @
              allocation_movements 3 (out_request 1 7 None) [(record_r1, 5), (record_r2, 2)]\<rparr>,
        Inr (Some (record_r1\<lparr>wi_quantity := wi_quantity record_r1 - 5, wi_updated_at := 3\<rparr>)))"
    by simp
  moreover have "allocation_rows 3 [(record_r1, 5), (record_r2, 2)] (items store_r1_r2) =
      [record_r1\<lparr>wi_quantity := 0, wi_updated_at := 3\<rparr>,
       record_r2\<lparr>wi_quantity := 3, wi_updated_at := 3\<rparr>]"
    using ne by (simp add: allocation_rows_def store_r1_r2_def) (simp add: record_r1_def record_r2_def)
  moreover have "allocation_movements 3 (out_request 1 7 None) [(record_r1, 5), (record_r2, 2)] =
      [\<lparr>mv_product_id = 1, mv_warehouse_item_id = Some 1, mv_movement_type = OUT,
               mv_quantity = 5, mv_movement_date = 3, mv_remarks = None\<rparr>,
              \<lparr>mv_product_id = 1, mv_warehouse_item_id = Some 2, mv_movement_type = OUT,
               mv_quantity = 2, mv_movement_date = 3, mv_remarks = None\<rparr>]"
    by (simp add: allocation_movements_def rq record_r1_def record_r2_def)
  moreover have "wi_quantity record_r1 - 5 = 0" by (simp add: record_r1_def)
  ultimately have res: "stock_out 3 (out_request 1 7 None) store_r1_r2 =
       (store_r1_r2
          \<lparr>items := [record_r1\<lparr>wi_quantity := 0, wi_updated_at := 3\<rparr>,
                     record_r2\<lparr>wi_quantity := 3, wi_updated_at := 3\<rparr>],
           movements := movements store_r1_r2 @
             [\<lparr>mv_product_id = 1, mv_warehouse_item_id = Some 1, mv_movement_type = OUT,
               mv_quantity = 5, mv_movement_date = 3, mv_remarks = None\<rparr>,
              \<lparr>mv_product_id = 1, mv_warehouse_item_id = Some 2, mv_movement_type = OUT,
               mv_quantity = 2, mv_movement_date = 3, mv_remarks = None\<rparr>]\<rparr>,
        Inr (Some (record_r1\<lparr>wi_quantity := 0, wi_updated_at := 3\<rparr>)))"
    by simp
  show ?thesis
    by (intro conjI h1 h2 h3 h4 h5 h6 h7 h8 al res)
qed

section \<open>The database after a call\<close>

lemma stock_in_state:
  "fst (stock_in now req d) = d
   \<or> (\<exists>r\<in>set (items d). wi_product_id r = sir_product_id req \<and>
         fst (stock_in now req d) =
           add_movement
             (in_movement now req (r\<lparr>wi_quantity := wi_quantity r + sir_quantity req,
                                     wi_updated_at := now\<rparr>))
             (save_item (r\<lparr>wi_quantity := wi_quantity r + sir_quantity req,
                          wi_updated_at := now\<rparr>) d))
   \<or> (\<exists>n. wi_id n = next_item_id d \<and> wi_product_id n = sir_product_id req \<and>
            wi_quantity n = sir_quantity req \<and>
            fst (stock_in now req d) = add_movement (in_movement now req n) (insert_item n d))"
proof (cases "session_get_product d (sir_product_id req)")
  case None
  then show ?thesis by (simp add: stock_in_def session_begin_def stock_in_body_def)
next
  case (Some p)
  show ?thesis
  proof (cases "first_item_at d (sir_product_id req) (sir_location req)")
    case None
    let ?n = "\<lparr>wi_id = next_item_id d, wi_product_id = sir_product_id req,
               wi_quantity = sir_quantity req, wi_location = sir_location req,
               wi_safety_stock = 5, wi_created_at = now, wi_updated_at = now\<rparr>"
    from Some None
    have "fst (stock_in now req d) = add_movement (in_movement now req ?n) (insert_item ?n d)"
      by (simp add: stock_in_def session_begin_def stock_in_body_def Let_def)
    then have "\<exists>n. wi_id n = next_item_id d \<and> wi_product_id n = sir_product_id req \<and>
            wi_quantity n = sir_quantity req \<and>
            fst (stock_in now req d) = add_movement (in_movement now req n) (insert_item n d)"
      by (intro exI [of _ ?n]) simp
    then show ?thesis by blast
  next
    case (Some r)
    then have rin: "r \<in> set (items d)" "wi_product_id r = sir_product_id req"
      by (simp_all add: first_item_at_Some)
    from Some \<open>session_get_product d (sir_product_id req) = Some p\<close>
    have "fst (stock_in now req d) =
           add_movement
             (in_movement now req (r\<lparr>wi_quantity := wi_quantity r + sir_quantity req,
                                     wi_updated_at := now\<rparr>))
             (save_item (r\<lparr>wi_quantity := wi_quantity r + sir_quantity req,
                          wi_updated_at := now\<rparr>) d)"
      by (simp add: stock_in_def session_begin_def stock_in_body_def Let_def)
    with rin show ?thesis by blast
  qed
qed

lemma stock_out_state:
  "fst (stock_out now req d) = d
   \<or> (\<exists>r\<in>set (items d). wi_product_id r = sor_product_id req \<and>
         sor_quantity req \<le> wi_quantity r \<and>
         fst (stock_out now req d) =
           add_movement
             (out_movement now req (r\<lparr>wi_quantity := wi_quantity r - sor_quantity req,
                                      wi_updated_at := now\<rparr>) (sor_quantity req))
             (save_item (r\<lparr>wi_quantity := wi_quantity r - sor_quantity req,
                          wi_updated_at := now\<rparr>) d))
   \<or> fst (stock_out now req d) =
       fst (deduct_loop now req (available_items d (sor_product_id req)) (sor_quantity req) (d, []))"
proof (cases "session_get_product d (sor_product_id req)")
  case None
  then show ?thesis by (simp add: stock_out_def session_begin_def stock_out_body_def)
next
  case (Some p)
  note p = this
  show ?thesis
  proof (cases "truthy (sor_location req)")
    case True
    note tr = this
    show ?thesis
    proof (cases "first_item_at d (sor_product_id req) (the (sor_location req))")
      case None
      with p tr show ?thesis by (simp add: stock_out_def session_begin_def stock_out_body_def)
    next
      case (Some r)
      then have "r \<in> set (items d)" "wi_product_id r = sor_product_id req"
        by (simp_all add: first_item_at_Some)
      note rin = this
      show ?thesis
      proof (cases "wi_quantity r < sor_quantity req")
        case True
        with Some p tr show ?thesis
          by (simp add: stock_out_def session_begin_def stock_out_body_def)
      next
        case False
        with Some p tr
        have "fst (stock_out now req d) =
           add_movement
             (out_movement now req (r\<lparr>wi_quantity := wi_quantity r - sor_quantity req,
                                      wi_updated_at := now\<rparr>) (sor_quantity req))
             (save_item (r\<lparr>wi_quantity := wi_quantity r - sor_quantity req,
                          wi_updated_at := now\<rparr>) d)"
          by (simp add: stock_out_def session_begin_def stock_out_body_def Let_def)
        moreover from False have "sor_quantity req \<le> wi_quantity r" by simp
        ultimately show ?thesis using rin by blast
      qed
    qed
  next
    case False
    obtain d' u where loop:
      "deduct_loop now req (available_items d (sor_product_id req)) (sor_quantity req) (d, []) = (d', u)"
      by (cases "deduct_loop now req (available_items d (sor_product_id req)) (sor_quantity req) (d, [])")
    with p False
    have "fst (stock_out now req d) = d \<or> fst (stock_out now req d) = d'"
      by (simp add: stock_out_def session_begin_def stock_out_body_def Let_def)
    with loop show ?thesis by auto
  qed
qed

section \<open>Quantities stay non-negative\<close>

lemma save_non_negative:
  "non_negative d \<Longrightarrow> 0 \<le> wi_quantity i \<Longrightarrow> non_negative (add_movement m (save_item i d))"
  by (auto simp: non_negative_def list_all_iff save_item_def add_movement_def)

lemma insert_non_negative:
  "non_negative d \<Longrightarrow> 0 \<le> wi_quantity i \<Longrightarrow> non_negative (add_movement m (insert_item i d))"
  by (simp add: non_negative_def list_all_iff insert_item_def add_movement_def)

lemma deduct_loop_non_negative:
  "non_negative d \<Longrightarrow> non_negative (fst (deduct_loop now req avail n (d, u)))"
proof (induction avail arbitrary: n d u)
  case Nil
  then show ?case by simp
next
  case (Cons item rest)
  show ?case
  proof (cases "n = 0")
    case True
    with Cons.prems show ?thesis by simp
  next
    case False
    let ?a = "min (wi_quantity item) n"
    let ?item' = "item\<lparr>wi_quantity := wi_quantity item - ?a, wi_updated_at := now\<rparr>"
    have "0 \<le> wi_quantity ?item'" by simp
    with Cons.prems
    have "non_negative (add_movement (out_movement now req ?item' ?a) (save_item ?item' d))"
      by (rule save_non_negative)
    from Cons.IH [OF this] False show ?thesis by (simp add: Let_def)
  qed
qed

text \<open>
  C7. If every stock record's quantity is non-negative before a stock-in (of a positive
  quantity) or a stock-out, whether the call succeeds or fails, every stock record's
  quantity is non-negative after it: the sufficiency check of the targeted branch and
  the \<open>min\<close> of the untargeted loop never take more than a record holds.
\<close>

theorem quantities_stay_non_negative:
  assumes "non_negative d" and "0 < sir_quantity rin"
  shows "non_negative (fst (stock_in now rin d)) \<and> non_negative (fst (stock_out now rout d))"
proof
  have mem: "\<And>r. r \<in> set (items d) \<Longrightarrow> 0 \<le> wi_quantity r"
    using assms(1) by (simp add: non_negative_def list_all_iff)
  from stock_in_state [of now rin d]
  show "non_negative (fst (stock_in now rin d))"
  proof (elim disjE bexE exE conjE)
    assume "fst (stock_in now rin d) = d"
    with assms(1) show ?thesis by simp
  next
    fix r assume r: "r \<in> set (items d)"
      and e: "fst (stock_in now rin d) =
           add_movement
             (in_movement now rin (r\<lparr>wi_quantity := wi_quantity r + sir_quantity rin,
                                     wi_updated_at := now\<rparr>))
             (save_item (r\<lparr>wi_quantity := wi_quantity r + sir_quantity rin,
                          wi_updated_at := now\<rparr>) d)"
    from mem [OF r] assms(2)
    have "0 \<le> wi_quantity (r\<lparr>wi_quantity := wi_quantity r + sir_quantity rin,
                          wi_updated_at := now\<rparr>)" by simp
    with assms(1) e show ?thesis by (simp add: save_non_negative)
  next
    fix n assume "wi_quantity n = sir_quantity rin"
      and e: "fst (stock_in now rin d) = add_movement (in_movement now rin n) (insert_item n d)"
    with assms(1,2) show ?thesis by (simp add: insert_non_negative)
  qed
  from stock_out_state [of now rout d]
  show "non_negative (fst (stock_out now rout d))"
  proof (elim disjE bexE conjE)
    assume "fst (stock_out now rout d) = d"
    with assms(1) show ?thesis by simp
  next
    fix r assume r: "r \<in> set (items d)" and le: "sor_quantity rout \<le> wi_quantity r"
      and e: "fst (stock_out now rout d) =
           add_movement
             (out_movement now rout (r\<lparr>wi_quantity := wi_quantity r - sor_quantity rout,
                                      wi_updated_at := now\<rparr>) (sor_quantity rout))
             (save_item (r\<lparr>wi_quantity := wi_quantity r - sor_quantity rout,
                          wi_updated_at := now\<rparr>) d)"
    from le have "0 \<le> wi_quantity (r\<lparr>wi_quantity := wi_quantity r - sor_quantity rout,
                          wi_updated_at := now\<rparr>)" by simp
    with assms(1) e show ?thesis by (simp add: save_non_negative)
  next
    assume "fst (stock_out now rout d) =
       fst (deduct_loop now rout (available_items d (sor_product_id rout)) (sor_quantity rout) (d, []))"
    with assms(1) show ?thesis by (simp add: deduct_loop_non_negative)
  qed
qed

theorem quantities_stay_non_negative_witness:
  "non_negative store_b2 \<and> 0 < sir_quantity (in_request 1 30 ''B2'')
   \<and> non_negative (fst (stock_in 9 (in_request 1 30 ''B2'') store_b2))
   \<and> non_negative (fst (stock_out 9 (out_request 1 50 (Some ''B2'')) store_b2))"
proof -
  have h1: "non_negative store_b2"
    by (simp add: non_negative_def store_b2_def record_b2_def)
  have h2: "0 < sir_quantity (in_request 1 30 ''B2'')"
    by (simp add: in_request_def)
  from quantities_stay_non_negative [OF h1 h2, where now = 9 and rout = "out_request 1 50 (Some ''B2'')"] h1 h2
  show ?thesis by blast
qed

section \<open>Conservation\<close>

lemma sum_filter_overwrite:
  assumes "distinct xs" and "r \<in> set xs" and "P r' = P r"
  shows "sum_list (map f (filter P (map (\<lambda>x. if x = r then r' else x) xs))) =
         sum_list (map f (filter P xs)) + (if P r then f r' - f r else (0::int))"
  using assms(1,2)
proof (induction xs)
  case Nil
  then show ?case by simp
next
  case (Cons a xs)
  show ?case
  proof (cases "a = r")
    case True
    with Cons.prems have "r \<notin> set xs" by simp
    then have "map (\<lambda>x. if x = r then r' else x) xs = xs"
      by (induction xs) auto
    with True assms(3) show ?thesis by simp
  next
    case False
    with Cons.prems have "distinct xs" "r \<in> set xs" by simp_all
    from Cons.IH [OF this] False show ?thesis by simp
  qed
qed

lemma stock_total_save:
  assumes ids: "distinct (map wi_id (items d))" and rin: "r \<in> set (items d)"
      and "wi_id r' = wi_id r" and "wi_product_id r' = wi_product_id r"
  shows "stock_total (add_movement m (save_item r' d)) pid =
         stock_total d pid + (if wi_product_id r = pid then wi_quantity r' - wi_quantity r else 0)"
proof -
  have its: "items (add_movement m (save_item r' d)) = map (\<lambda>x. if x = r then r' else x) (items d)"
    using overwrite_row [OF ids rin assms(3)] by (simp add: add_movement_def save_item_def)
  from ids have dis: "distinct (items d)" by (simp add: distinct_map)
  have "(wi_product_id r' = pid) = (wi_product_id r = pid)" using assms(4) by simp
  from sum_filter_overwrite [OF dis rin this, of wi_quantity]
  show ?thesis by (simp add: stock_total_def its)
qed

lemma stock_total_insert:
  "stock_total (add_movement m (insert_item n d)) pid =
   stock_total d pid + (if wi_product_id n = pid then wi_quantity n else 0)"
  by (simp add: stock_total_def add_movement_def insert_item_def)

lemma movement_balance_save_add:
  "movement_balance (add_movement m (save_item i d)) pid =
   movement_balance d pid +
     (if mv_product_id m = pid
      then (case mv_movement_type m of IN \<Rightarrow> mv_quantity m | OUT \<Rightarrow> - mv_quantity m)
      else 0)"
  by (cases "mv_movement_type m")
     (simp_all add: movement_balance_def add_movement_def save_item_def)

lemma movement_balance_insert_add:
  "movement_balance (add_movement m (insert_item i d)) pid =
   movement_balance d pid +
     (if mv_product_id m = pid
      then (case mv_movement_type m of IN \<Rightarrow> mv_quantity m | OUT \<Rightarrow> - mv_quantity m)
      else 0)"
  by (cases "mv_movement_type m")
     (simp_all add: movement_balance_def add_movement_def insert_item_def)

lemma ids_after_save:
  "map wi_id (items (add_movement m (save_item i d))) = map wi_id (items d)"
  by (simp add: add_movement_def save_item_def)

lemma deduct_step_conserved:
  assumes ids: "distinct (map wi_id (items d))" and rin: "r \<in> set (items d)"
      and pid: "wi_product_id r = sor_product_id req"
      and bal: "movement_balance d pid = stock_total d pid"
  shows "movement_balance
           (add_movement (out_movement now req (r\<lparr>wi_quantity := wi_quantity r - a, wi_updated_at := now\<rparr>) a)
              (save_item (r\<lparr>wi_quantity := wi_quantity r - a, wi_updated_at := now\<rparr>) d)) pid =
         stock_total
           (add_movement (out_movement now req (r\<lparr>wi_quantity := wi_quantity r - a, wi_updated_at := now\<rparr>) a)
              (save_item (r\<lparr>wi_quantity := wi_quantity r - a, wi_updated_at := now\<rparr>) d)) pid"
proof -
  let ?r' = "r\<lparr>wi_quantity := wi_quantity r - a, wi_updated_at := now\<rparr>"
  have "stock_total (add_movement (out_movement now req ?r' a) (save_item ?r' d)) pid =
        stock_total d pid + (if wi_product_id r = pid then wi_quantity ?r' - wi_quantity r else 0)"
    by (rule stock_total_save [OF ids rin]) simp_all
  then show ?thesis
    using pid bal by (simp add: movement_balance_save_add out_movement_def)
qed

lemma deduct_loop_conserved:
  assumes "distinct (map wi_id (items d))" and "set avail \<subseteq> set (items d)"
      and "distinct (map wi_id avail)"
      and "\<forall>i\<in>set avail. wi_product_id i = sor_product_id req"
      and "movement_balance d pid = stock_total d pid"
  shows "movement_balance (fst (deduct_loop now req avail n (d, u))) pid =
         stock_total (fst (deduct_loop now req avail n (d, u))) pid"
  using assms
proof (induction avail arbitrary: n d u)
  case Nil
  then show ?case by simp
next
  case (Cons item rest)
  show ?case
  proof (cases "n = 0")
    case True
    with Cons.prems show ?thesis by simp
  next
    case False
    let ?a = "min (wi_quantity item) n"
    let ?item' = "item\<lparr>wi_quantity := wi_quantity item - ?a, wi_updated_at := now\<rparr>"
    let ?d2 = "add_movement (out_movement now req ?item' ?a) (save_item ?item' d)"
    from Cons.prems have iin: "item \<in> set (items d)"
      and ipid: "wi_product_id item = sor_product_id req" by simp_all
    have its: "items ?d2 = map (\<lambda>x. if x = item then ?item' else x) (items d)"
      using overwrite_row [OF Cons.prems(1) iin, of ?item']
      by (simp add: add_movement_def save_item_def)
    have d1: "distinct (map wi_id (items ?d2))"
      using Cons.prems(1) by (simp add: ids_after_save)
    have nid: "wi_id item \<notin> wi_id ` set rest"
      using Cons.prems(3) by simp
    have sub: "set rest \<subseteq> set (items ?d2)"
    proof
      fix x assume x: "x \<in> set rest"
      with Cons.prems(2) have "x \<in> set (items d)" by auto
      moreover from x nid have "x \<noteq> item" by blast
      ultimately show "x \<in> set (items ?d2)" by (auto simp: its)
    qed
    from Cons.prems(3) have d3: "distinct (map wi_id rest)" by simp
    from Cons.prems(4) have p4: "\<forall>i\<in>set rest. wi_product_id i = sor_product_id req" by simp
    have bal: "movement_balance ?d2 pid = stock_total ?d2 pid"
      by (rule deduct_step_conserved [OF Cons.prems(1) iin ipid Cons.prems(5)])
    from Cons.IH [OF d1 sub d3 p4 bal, of "n - ?a" "u @ [?item']"] False
    show ?thesis by (simp add: Let_def)
  qed
qed

lemma deduct_loop_ids:
  "map wi_id (items (fst (deduct_loop now req avail n (d, u)))) = map wi_id (items d)"
  by (induction avail arbitrary: n d u) (simp_all add: Let_def ids_after_save)

lemma stock_in_conserved:
  assumes ids: "distinct (map wi_id (items d))"
      and bal: "movement_balance d pid = stock_total d pid"
  shows "movement_balance (fst (stock_in now req d)) pid = stock_total (fst (stock_in now req d)) pid
       \<and> distinct (map wi_id (items (fst (stock_in now req d))))"
  using stock_in_state [of now req d]
proof (elim disjE bexE exE conjE)
  assume "fst (stock_in now req d) = d"
  with ids bal show ?thesis by simp
next
  fix r :: warehouse_item
  let ?r' = "r\<lparr>wi_quantity := wi_quantity r + sir_quantity req, wi_updated_at := now\<rparr>"
  assume rin: "r \<in> set (items d)" and "wi_product_id r = sir_product_id req"
    and e: "fst (stock_in now req d) = add_movement (in_movement now req ?r') (save_item ?r' d)"
  have "stock_total (add_movement (in_movement now req ?r') (save_item ?r' d)) pid =
        stock_total d pid + (if wi_product_id r = pid then wi_quantity ?r' - wi_quantity r else 0)"
    by (rule stock_total_save [OF ids rin]) simp_all
  with bal e ids show ?thesis
    by (simp add: movement_balance_save_add in_movement_def ids_after_save)
next
  fix n
  assume nid: "wi_id n = next_item_id d" and "wi_quantity n = sir_quantity req"
    and e: "fst (stock_in now req d) = add_movement (in_movement now req n) (insert_item n d)"
  have fresh: "wi_id n \<notin> wi_id ` set (items d)"
    using next_item_id_fresh [of _ d] nid by fastforce
  have "distinct (map wi_id (items (add_movement (in_movement now req n) (insert_item n d))))"
    using ids fresh by (simp add: add_movement_def insert_item_def)
  with bal e \<open>wi_quantity n = sir_quantity req\<close> show ?thesis
    by (simp add: movement_balance_insert_add stock_total_insert in_movement_def)
qed

lemma stock_out_conserved:
  assumes ids: "distinct (map wi_id (items d))"
      and bal: "movement_balance d pid = stock_total d pid"
  shows "movement_balance (fst (stock_out now req d)) pid = stock_total (fst (stock_out now req d)) pid
       \<and> distinct (map wi_id (items (fst (stock_out now req d))))"
  using stock_out_state [of now req d]
proof (elim disjE bexE conjE)
  assume "fst (stock_out now req d) = d"
  with ids bal show ?thesis by simp
next
  fix r :: warehouse_item
  let ?r' = "r\<lparr>wi_quantity := wi_quantity r - sor_quantity req, wi_updated_at := now\<rparr>"
  assume rin: "r \<in> set (items d)" and pid: "wi_product_id r = sor_product_id req"
    and e: "fst (stock_out now req d) =
            add_movement (out_movement now req ?r' (sor_quantity req)) (save_item ?r' d)"
  from deduct_step_conserved [OF ids rin pid bal, of now "sor_quantity req"] e ids
  show ?thesis by (simp add: ids_after_save)
next
  let ?avail = "available_items d (sor_product_id req)"
  assume e: "fst (stock_out now req d) =
             fst (deduct_loop now req ?avail (sor_quantity req) (d, []))"
  have sub: "set ?avail \<subseteq> set (items d)"
    by (auto simp: available_items_set)
  have dav: "distinct (map wi_id ?avail)"
    by (rule available_items_distinct [OF ids])
  have same: "\<forall>i\<in>set ?avail. wi_product_id i = sor_product_id req"
    by (simp add: available_items_set)
  from deduct_loop_conserved [OF ids sub dav same bal, of now "sor_quantity req" "[]"] e ids
  show ?thesis by (simp add: deduct_loop_ids)
qed

lemma apply_operation_conserved:
  assumes "distinct (map wi_id (items d))"
      and "movement_balance d pid = stock_total d pid"
  shows "movement_balance (apply_operation op d) pid = stock_total (apply_operation op d) pid
       \<and> distinct (map wi_id (items (apply_operation op d)))"
proof (cases op)
  case (StockIn now req)
  with stock_in_conserved [OF assms, of now req] show ?thesis by simp
next
  case (StockOut now req)
  with stock_out_conserved [OF assms, of now req] show ?thesis by simp
qed

lemma trace_conserved:
  "distinct (map wi_id (items d)) \<Longrightarrow> movement_balance d pid = stock_total d pid \<Longrightarrow>
   s \<in> set (trace d ops) \<Longrightarrow> movement_balance s pid = stock_total s pid"
proof (induction ops arbitrary: d)
  case Nil
  then show ?case by simp
next
  case (Cons op ops)
  from Cons.prems(3) consider "s = d" | "s \<in> set (trace (apply_operation op d) ops)"
    by auto
  then show ?case
  proof cases
    case 1
    with Cons.prems(2) show ?thesis by simp
  next
    case 2
    from apply_operation_conserved [OF Cons.prems(1,2), of op]
    have "movement_balance (apply_operation op d) pid = stock_total (apply_operation op d) pid"
      and "distinct (map wi_id (items (apply_operation op d)))" by simp_all
    from Cons.IH [OF this(2) this(1) 2] show ?thesis .
  qed
qed

text \<open>
  C2. Starting from a store without stock records and movements, after any sequence of
  stock-in and stock-out calls (a failed call changes nothing, so the successful ones
  are covered), at every database the sequence passes through and for every product:
  the quantities of the product's IN movements minus those of its OUT movements add up
  to the quantities its stock records hold.
\<close>

theorem conservation:
  assumes "s \<in> set (trace (empty_store ps) ops)"
  shows "movement_balance s pid = stock_total s pid"
proof (rule trace_conserved [OF _ _ assms])
  show "distinct (map wi_id (items (empty_store ps)))"
    by (simp add: empty_store_def)
  show "movement_balance (empty_store ps) pid = stock_total (empty_store ps) pid"
    by (simp add: empty_store_def movement_balance_def stock_total_def)
qed

theorem conservation_witness:
  "last (trace (empty_store [widget]) example_operations)
     \<in> set (trace (empty_store [widget]) example_operations)
   \<and> map wi_quantity (items (last (trace (empty_store [widget]) example_operations))) = [0, 3]
   \<and> map mv_quantity (movements (last (trace (empty_store [widget]) example_operations))) = [5, 5, 5, 2]
   \<and> movement_balance (last (trace (empty_store [widget]) example_operations)) 1 =
       stock_total (last (trace (empty_store [widget]) example_operations)) 1"
proof -
  have ne: "trace (empty_store [widget]) example_operations \<noteq> []"
    by (simp add: example_operations_def)
  then have h: "last (trace (empty_store [widget]) example_operations)
     \<in> set (trace (empty_store [widget]) example_operations)"
    by (rule last_in_set)
  have v: "map wi_quantity (items (last (trace (empty_store [widget]) example_operations))) = [0, 3]
     \<and> map mv_quantity (movements (last (trace (empty_store [widget]) example_operations))) = [5, 5, 5, 2]"
    by (simp add: example_operations_def empty_store_def widget_def in_request_def
          out_request_def stock_in_def stock_out_def session_begin_def stock_in_body_def
          stock_out_body_def session_get_product_def first_item_at_def truthy_def Let_def
          next_item_id_def add_movement_def insert_item_def save_item_def in_movement_def
          out_movement_def refresh_def available_items_def)
  from conservation [OF h, of 1] h v show ?thesis by simp
qed

section \<open>Low-stock alerts\<close>

text \<open>
  C6. The low-stock alerts name a product id exactly when a product with that id exists,
  it has at least one stock record, and the sum of its records' quantities is strictly
  less than the sum of their safety stocks. So a product whose total equals its total
  safety stock is not flagged, and one whose total is one unit below is.
\<close>

theorem low_stock_alert_iff:
  "(\<exists>a\<in>set (get_low_stock_alerts d). lsa_product_id a = pid)
   \<longleftrightarrow> (\<exists>p\<in>set (products d). p_id p = pid)
       \<and> filter (\<lambda>i. wi_product_id i = pid) (items d) \<noteq> []
       \<and> sum_list (map wi_quantity (filter (\<lambda>i. wi_product_id i = pid) (items d)))
           < sum_list (map wi_safety_stock (filter (\<lambda>i. wi_product_id i = pid) (items d)))"
  by (auto simp: get_low_stock_alerts_def low_stock_products_def Let_def image_iff
           split: if_splits)

theorem low_stock_alert_iff_witness:
  "sum_list (map wi_quantity (filter (\<lambda>i. wi_product_id i = 1) (items store_two))) = 10
   \<and> sum_list (map wi_safety_stock (filter (\<lambda>i. wi_product_id i = 1) (items store_two))) = 10
   \<and> \<not> (\<exists>a\<in>set (get_low_stock_alerts store_two). lsa_product_id a = 1)
   \<and> sum_list (map wi_quantity (filter (\<lambda>i. wi_product_id i = 2) (items store_two))) = 4
   \<and> sum_list (map wi_safety_stock (filter (\<lambda>i. wi_product_id i = 2) (items store_two))) = 5
   \<and> (\<exists>a\<in>set (get_low_stock_alerts store_two). lsa_product_id a = 2)"
proof -
  have s: "sum_list (map wi_quantity (filter (\<lambda>i. wi_product_id i = 1) (items store_two))) = 10"
    "sum_list (map wi_safety_stock (filter (\<lambda>i. wi_product_id i = 1) (items store_two))) = 10"
    "sum_list (map wi_quantity (filter (\<lambda>i. wi_product_id i = 2) (items store_two))) = 4"
    "sum_list (map wi_safety_stock (filter (\<lambda>i. wi_product_id i = 2) (items store_two))) = 5"
    by (simp_all add: store_two_def record_r1_def record_r2_def record_g1_def)
  have p: "\<exists>p\<in>set (products store_two). p_id p = 2"
    by (simp add: store_two_def widget_def gadget_def)
  have ne: "filter (\<lambda>i. wi_product_id i = 2) (items store_two) \<noteq> []"
    by (simp add: store_two_def record_r1_def record_r2_def record_g1_def)
  from low_stock_alert_iff [of store_two 1] s(1,2)
  have a: "\<not> (\<exists>a\<in>set (get_low_stock_alerts store_two). lsa_product_id a = 1)" by simp
  from low_stock_alert_iff [of store_two 2] s(3,4) p ne
  have b: "\<exists>a\<in>set (get_low_stock_alerts store_two). lsa_product_id a = 2" by simp
  from a b s show ?thesis by simp
qed

section \<open>Inventory overview\<close>

subsection \<open>The slice\<close>

lemma py_slice_subset: "set (py_slice xs a b) \<subseteq> set xs"
  unfolding py_slice_def Let_def
  by (meson set_take_subset set_drop_subset subset_trans)

lemma py_slice_non_negative:
  assumes "0 \<le> offset" and "0 \<le> limit"
  shows "py_slice xs offset (offset + limit) = take (nat limit) (drop (nat offset) xs)"
proof (cases "offset \<le> int (length xs)")
  case True
  let ?n = "int (length xs)"
  have lo: "min offset ?n = offset" using True by simp
  have "take (nat (min (offset + limit) ?n - offset)) (drop (nat offset) xs) =
        take (nat limit) (drop (nat offset) xs)"
  proof (cases "offset + limit \<le> ?n")
    case True
    then show ?thesis by simp
  next
    case False
    then have "min (offset + limit) ?n = ?n" by simp
    moreover have "length (drop (nat offset) xs) = nat (?n - offset)"
      using assms(1) by simp
    moreover have "nat (?n - offset) \<le> nat limit" using False by simp
    ultimately show ?thesis by simp
  qed
  with assms lo show ?thesis by (simp add: py_slice_def Let_def)
next
  case False
  then have "length xs \<le> nat offset" by simp
  with assms False show ?thesis by (simp add: py_slice_def Let_def)
qed

subsection \<open>The joined and filtered rows\<close>

lemma overview_query_filter:
  "overview_query ilike upper product_name sku d =
   filter (\<lambda>(i, p). product_matches ilike upper product_name sku p) (join_rows d)"
  by (auto simp: overview_query_def Let_def product_matches_def split_def intro: filter_cong)

lemma count_unique_key:
  "distinct (map p_id ps) \<Longrightarrow>
   length (filter (\<lambda>p. p_id p = k \<and> P p) ps) =
     (if \<exists>p\<in>set ps. p_id p = k \<and> P p then 1 else 0)"
proof (induction ps)
  case Nil
  then show ?case by simp
next
  case (Cons a ps)
  from Cons.prems have na: "p_id a \<notin> p_id ` set ps" by simp
  have nk: "p_id p \<noteq> p_id a" if "p \<in> set ps" for p
    using that na by (metis imageI)
  from Cons have ih: "length (filter (\<lambda>p. p_id p = k \<and> P p) ps) =
     (if \<exists>p\<in>set ps. p_id p = k \<and> P p then 1 else 0)" by simp
  show ?case
  proof (cases "p_id a = k")
    case True
    with nk have none: "\<not> (\<exists>p\<in>set ps. p_id p = k \<and> P p)" by metis
    with ih have "filter (\<lambda>p. p_id p = k \<and> P p) ps = []" by simp
    with True none show ?thesis by simp
  next
    case False
    with ih show ?thesis by simp
  qed
qed

lemma rows_of_product:
  assumes "distinct (map p_id (products d))"
  shows "map fst (filter (\<lambda>(i, p). p_id p = k)
           (filter (\<lambda>(i, p). Q p) (join_rows d))) =
         filter (\<lambda>i. wi_product_id i = k \<and> (\<exists>p\<in>set (products d). p_id p = wi_product_id i \<and> Q p))
           (items d)"
proof -
  have one: "\<And>i. map fst (filter (\<lambda>(i, p). p_id p = k) (filter (\<lambda>(i, p). Q p)
                 (map (\<lambda>p. (i, p)) (filter (\<lambda>p. p_id p = wi_product_id i) (products d))))) =
             (if wi_product_id i = k \<and> (\<exists>p\<in>set (products d). p_id p = wi_product_id i \<and> Q p)
              then [i] else [])"
  proof -
    fix i
    have "map fst (filter (\<lambda>(i, p). p_id p = k) (filter (\<lambda>(i, p). Q p)
                 (map (\<lambda>p. (i, p)) (filter (\<lambda>p. p_id p = wi_product_id i) (products d))))) =
          map (\<lambda>p. i) (filter (\<lambda>p. p_id p = k) (filter (\<lambda>p. p_id p = wi_product_id i \<and> Q p) (products d)))"
      by (simp add: filter_map o_def conj_commute)
    also have "\<dots> = replicate (length (filter (\<lambda>p. p_id p = k)
                 (filter (\<lambda>p. p_id p = wi_product_id i \<and> Q p) (products d)))) i"
      by (simp add: map_replicate_const)
    also have "\<dots> = (if wi_product_id i = k \<and> (\<exists>p\<in>set (products d). p_id p = wi_product_id i \<and> Q p)
              then [i] else [])"
    proof (cases "wi_product_id i = k")
      case True
      then have "filter (\<lambda>p. p_id p = k) (filter (\<lambda>p. p_id p = wi_product_id i \<and> Q p) (products d)) =
                 filter (\<lambda>p. p_id p = wi_product_id i \<and> Q p) (products d)"
        by (auto intro: filter_cong)
      with True count_unique_key [OF assms, of "wi_product_id i" Q] show ?thesis by auto
    next
      case False
      then have "filter (\<lambda>p. p_id p = k) (filter (\<lambda>p. p_id p = wi_product_id i \<and> Q p) (products d)) = []"
        by (auto simp: filter_empty_conv)
      with False show ?thesis by simp
    qed
    finally show "map fst (filter (\<lambda>(i, p). p_id p = k) (filter (\<lambda>(i, p). Q p)
                 (map (\<lambda>p. (i, p)) (filter (\<lambda>p. p_id p = wi_product_id i) (products d))))) =
             (if wi_product_id i = k \<and> (\<exists>p\<in>set (products d). p_id p = wi_product_id i \<and> Q p)
              then [i] else [])" .
  qed
  let ?g = "\<lambda>i. map (\<lambda>p. (i, p)) (filter (\<lambda>p. p_id p = wi_product_id i) (products d))"
  let ?A = "\<lambda>(i::warehouse_item, p). p_id p = k"
  let ?B = "\<lambda>(i::warehouse_item, p). Q p"
  let ?R = "\<lambda>i. wi_product_id i = k \<and> (\<exists>p\<in>set (products d). p_id p = wi_product_id i \<and> Q p)"
  have gen: "map fst (filter ?A (filter ?B (concat (map ?g xs)))) = filter ?R xs" for xs
  proof (induction xs)
    case Nil
    show ?case by simp
  next
    case (Cons a xs)
    have "map fst (filter ?A (filter ?B (concat (map ?g (a # xs))))) =
          map fst (filter ?A (filter ?B (?g a))) @
          map fst (filter ?A (filter ?B (concat (map ?g xs))))"
      by simp
    also have "\<dots> = (if ?R a then [a] else []) @ filter ?R xs"
      by (simp only: Cons.IH one)
    also have "\<dots> = filter ?R (a # xs)"
      by auto
    finally show ?case .
  qed
  show ?thesis
    unfolding join_rows_def by (rule gen)
qed

subsection \<open>The grouping loop\<close>

lemma group_step_eq:
  "group_step m (i, p) =
   map (\<lambda>(k, e). if k = p_id p
          then (k, e\<lparr>iq_total_quantity := iq_total_quantity e + wi_quantity i,
                     iq_locations := iq_locations e @
                        [\<lparr>lq_location = wi_location i, lq_quantity = wi_quantity i\<rparr>]\<rparr>)
          else (k, e))
     (if map_of m (p_id p) = None
      then m @ [(p_id p, \<lparr>iq_product_id = p_id p, iq_product_name = p_name p, iq_sku = p_sku p,
                          iq_total_quantity = 0, iq_locations = []\<rparr>)]
      else m)"
  by (simp add: group_step_def Let_def split_def o_def)

lemma keys_after_update:
  "map fst (map (\<lambda>(k, e). if k = x then (k, f e) else (k, e)) xs) = map fst xs"
  by (induction xs) auto

lemma group_step_keys:
  "map fst (group_step m (i, p)) =
   (if map_of m (p_id p) = None then map fst m @ [p_id p] else map fst m)"
  unfolding group_step_eq keys_after_update by simp

lemma group_keys:
  "set (map fst (foldl group_step [] rows)) = (\<lambda>(i, p). p_id p) ` set rows
   \<and> distinct (map fst (foldl group_step [] rows))"
proof (induction rows rule: rev_induct)
  case Nil
  show ?case by simp
next
  case (snoc row rows)
  obtain i p where row: "row = (i, p)" by (cases row)
  let ?m = "foldl group_step [] rows"
  from snoc have ks: "set (map fst ?m) = (\<lambda>(i, p). p_id p) ` set rows"
    and dis: "distinct (map fst ?m)" by simp_all
  have none: "map_of ?m (p_id p) = None \<longleftrightarrow> p_id p \<notin> set (map fst ?m)"
    by (simp add: map_of_eq_None_iff)
  show ?case
  proof (cases "map_of ?m (p_id p) = None")
    case True
    with none have "p_id p \<notin> set (map fst ?m)" by simp
    with True ks dis show ?thesis
      by (simp add: row group_step_keys)
  next
    case False
    with none have "p_id p \<in> set (map fst ?m)" by simp
    with False ks dis show ?thesis
      by (auto simp: row group_step_keys)
  qed
qed

lemma group_entry:
  "(k, e) \<in> set (foldl group_step [] rows) \<Longrightarrow>
   iq_product_id e = k
   \<and> iq_locations e =
       map (\<lambda>(i, p). \<lparr>lq_location = wi_location i, lq_quantity = wi_quantity i\<rparr>)
         (filter (\<lambda>(i, p). p_id p = k) rows)
   \<and> iq_total_quantity e =
       sum_list (map (\<lambda>(i, p). wi_quantity i) (filter (\<lambda>(i, p). p_id p = k) rows))"
proof (induction rows arbitrary: k e rule: rev_induct)
  case Nil
  then show ?case by simp
next
  case (snoc row rows)
  obtain i p where row: "row = (i, p)" by (cases row)
  let ?m = "foldl group_step [] rows"
  let ?init = "\<lparr>iq_product_id = p_id p, iq_product_name = p_name p, iq_sku = p_sku p,
                 iq_total_quantity = 0, iq_locations = []\<rparr>"
  let ?up = "\<lambda>e. e\<lparr>iq_total_quantity := iq_total_quantity e + wi_quantity i,
                     iq_locations := iq_locations e @
                        [\<lparr>lq_location = wi_location i, lq_quantity = wi_quantity i\<rparr>]\<rparr>"
  from snoc.prems have mem: "(k, e) \<in> set (group_step ?m (i, p))"
    by (simp add: row)
  then consider
      (other) "k \<noteq> p_id p" "(k, e) \<in> set ?m"
    | (old) e1 where "k = p_id p" "(k, e1) \<in> set ?m" "e = ?up e1"
    | (new) "k = p_id p" "map_of ?m (p_id p) = None" "e = ?up ?init"
    unfolding group_step_eq by (auto split: if_splits)
  then show ?case
  proof cases
    case other
    from snoc.IH [OF other(2)] other(1) show ?thesis by (simp add: row)
  next
    case old
    from snoc.IH [OF old(2)] old(1,3) show ?thesis by (simp add: row)
  next
    case new
    from new(2) have "p_id p \<notin> set (map fst ?m)"
      by (simp add: map_of_eq_None_iff)
    with group_keys [of rows] have "p_id p \<notin> (\<lambda>(i, p). p_id p) ` set rows" by simp
    have "p_id b \<noteq> p_id p" if "(a, b) \<in> set rows" for a b
    proof
      assume "p_id b = p_id p"
      moreover from that have "p_id b \<in> (\<lambda>(i, p). p_id p) ` set rows" by force
      ultimately show False using \<open>p_id p \<notin> (\<lambda>(i, p). p_id p) ` set rows\<close> by simp
    qed
    then have "filter (\<lambda>(i, q). p_id q = p_id p) rows = []"
      by (auto simp: filter_empty_conv)
    with new(1,3) show ?thesis by (simp add: row)
  qed
qed

lemma grouped_entry:
  assumes "e \<in> set (grouped_overview ilike upper product_name sku d)"
  shows "iq_locations e =
           map (\<lambda>(i, p). \<lparr>lq_location = wi_location i, lq_quantity = wi_quantity i\<rparr>)
             (filter (\<lambda>(i, p). p_id p = iq_product_id e)
                (overview_query ilike upper product_name sku d))
       \<and> iq_total_quantity e = sum_list (map lq_quantity (iq_locations e))"
proof -
  from assms obtain k where
    "(k, e) \<in> set (foldl group_step [] (overview_query ilike upper product_name sku d))"
    by (auto simp: grouped_overview_def)
  from group_entry [OF this] show ?thesis
    by (simp add: o_def split_def)
qed

lemma grouped_ids:
  "map iq_product_id (grouped_overview ilike upper product_name sku d) =
   map fst (foldl group_step [] (overview_query ilike upper product_name sku d))"
  unfolding grouped_overview_def map_map
  by (rule map_cong [OF refl]) (use group_entry in fastforce)

lemma grouped_store_two:
  "grouped_overview any_ilike same_case None None store_two =
   [\<lparr>iq_product_id = 1, iq_product_name = ''Widget'', iq_sku = ''WID-1'', iq_total_quantity = 10,
      iq_locations = [\<lparr>lq_location = ''A1'', lq_quantity = 5\<rparr>,
                      \<lparr>lq_location = ''A2'', lq_quantity = 5\<rparr>]\<rparr>,
    \<lparr>iq_product_id = 2, iq_product_name = ''Gadget'', iq_sku = ''GAD-2'', iq_total_quantity = 4,
      iq_locations = [\<lparr>lq_location = ''A1'', lq_quantity = 4\<rparr>]\<rparr>]"
  by (simp add: grouped_overview_def overview_query_def join_rows_def group_step_def truthy_def
        Let_def store_two_def widget_def gadget_def record_r1_def record_r2_def record_g1_def)

subsection \<open>Entries\<close>

text \<open>
  C10. Every entry the overview returns is consistent in itself: its total quantity is
  the sum of the quantities of its location breakdown, and the breakdown has exactly one
  (location, quantity) pair for each stock record of that product that matched the
  filters, in the order of the records. Product ids are the primary key of the product
  table.
\<close>

theorem overview_entry_consistent:
  assumes "distinct (map p_id (products d))"
      and "e \<in> set (get_inventory_overview ilike upper d offset limit product_name sku)"
  shows "iq_total_quantity e = sum_list (map lq_quantity (iq_locations e))
       \<and> iq_locations e =
           map (\<lambda>i. \<lparr>lq_location = wi_location i, lq_quantity = wi_quantity i\<rparr>)
             (filter (\<lambda>i. wi_product_id i = iq_product_id e
                          \<and> record_matches ilike upper product_name sku d i) (items d))"
proof -
  from assms(2) have mem: "e \<in> set (grouped_overview ilike upper product_name sku d)"
    using py_slice_subset [of "grouped_overview ilike upper product_name sku d" offset "offset + limit"]
    by (auto simp: get_inventory_overview_def)
  note ge = grouped_entry [OF mem]
  have "map (\<lambda>(i, p). \<lparr>lq_location = wi_location i, lq_quantity = wi_quantity i\<rparr>)
             (filter (\<lambda>(i, p). p_id p = iq_product_id e)
                (overview_query ilike upper product_name sku d)) =
        map (\<lambda>i. \<lparr>lq_location = wi_location i, lq_quantity = wi_quantity i\<rparr>)
          (map fst (filter (\<lambda>(i, p). p_id p = iq_product_id e)
             (filter (\<lambda>(i, p). product_matches ilike upper product_name sku p) (join_rows d))))"
    by (simp add: overview_query_filter o_def split_def)
  also have "\<dots> = map (\<lambda>i. \<lparr>lq_location = wi_location i, lq_quantity = wi_quantity i\<rparr>)
             (filter (\<lambda>i. wi_product_id i = iq_product_id e
                          \<and> record_matches ilike upper product_name sku d i) (items d))"
    unfolding rows_of_product [OF assms(1)] record_matches_def ..
  finally show ?thesis using ge by simp
qed

theorem overview_entry_consistent_witness:
  "distinct (map p_id (products store_two))
   \<and> \<lparr>iq_product_id = 1, iq_product_name = ''Widget'', iq_sku = ''WID-1'', iq_total_quantity = 10,
       iq_locations = [\<lparr>lq_location = ''A1'', lq_quantity = 5\<rparr>,
                       \<lparr>lq_location = ''A2'', lq_quantity = 5\<rparr>]\<rparr>
       \<in> set (get_inventory_overview any_ilike same_case store_two 0 100 None None)
   \<and> (10::int) = sum_list (map lq_quantity [\<lparr>lq_location = ''A1'', lq_quantity = 5\<rparr>,
                       \<lparr>lq_location = ''A2'', lq_quantity = 5\<rparr>])
   \<and> [\<lparr>lq_location = ''A1'', lq_quantity = 5\<rparr>, \<lparr>lq_location = ''A2'', lq_quantity = 5\<rparr>] =
       map (\<lambda>i. \<lparr>lq_location = wi_location i, lq_quantity = wi_quantity i\<rparr>)
         (filter (\<lambda>i. wi_product_id i = 1 \<and> record_matches any_ilike same_case None None store_two i)
            (items store_two))"
proof -
  have h1: "distinct (map p_id (products store_two))"
    by (simp add: store_two_def widget_def gadget_def)
  have h2: "\<lparr>iq_product_id = 1, iq_product_name = ''Widget'', iq_sku = ''WID-1'', iq_total_quantity = 10,
       iq_locations = [\<lparr>lq_location = ''A1'', lq_quantity = 5\<rparr>,
                       \<lparr>lq_location = ''A2'', lq_quantity = 5\<rparr>]\<rparr>
       \<in> set (get_inventory_overview any_ilike same_case store_two 0 100 None None)"
    by (simp add: get_inventory_overview_def grouped_store_two py_slice_def)
  from overview_entry_consistent [OF h1 h2]
  have c4: "[\<lparr>lq_location = ''A1'', lq_quantity = 5\<rparr>, \<lparr>lq_location = ''A2'', lq_quantity = 5\<rparr>] =
       map (\<lambda>i. \<lparr>lq_location = wi_location i, lq_quantity = wi_quantity i\<rparr>)
         (filter (\<lambda>i. wi_product_id i = 1 \<and> record_matches any_ilike same_case None None store_two i)
            (items store_two))"
    by simp
  have c3: "(10::int) = sum_list (map lq_quantity [\<lparr>lq_location = ''A1'', lq_quantity = 5\<rparr>,
                       \<lparr>lq_location = ''A2'', lq_quantity = 5\<rparr>])"
    by simp
  show ?thesis
    by (intro conjI h1 h2 c3 c4)
qed

subsection \<open>Pagination\<close>

text \<open>
  The offset and the limit are integers without a bound. In the store of two products
  the grouped list has two entries. With offset 0 and limit -1 the overview returns one entry, more than the
  limit; with offset -2 and limit 2 it returns none.
\<close>

theorem overview_negative_counterexample:
  "length (grouped_overview any_ilike same_case None None store_two) = 2
   \<and> get_inventory_overview any_ilike same_case store_two 0 (- 1) None None =
     [\<lparr>iq_product_id = 1, iq_product_name = ''Widget'', iq_sku = ''WID-1'', iq_total_quantity = 10,
       iq_locations = [\<lparr>lq_location = ''A1'', lq_quantity = 5\<rparr>,
                       \<lparr>lq_location = ''A2'', lq_quantity = 5\<rparr>]\<rparr>]
   \<and> \<not> int (length (get_inventory_overview any_ilike same_case store_two 0 (- 1) None None)) \<le> - 1
   \<and> get_inventory_overview any_ilike same_case store_two (- 2) 2 None None = []"
  by (simp add: get_inventory_overview_def grouped_store_two py_slice_def)

text \<open>
  C8, as the code has it. The overview slices the list of per-product entries, never the
  joined rows: for every offset and limit each returned entry is one of the grouped
  entries, the grouped entries have pairwise different product ids, one for every
  product of the joined rows, and each carries all the (location, quantity) pairs of its
  product's rows. For a non-negative offset and limit the result is the grouped list
  from index offset on, cut to at most limit entries.
\<close>

theorem overview_pages_grouped:
  "(0 \<le> offset \<and> 0 \<le> limit \<longrightarrow>
      get_inventory_overview ilike upper d offset limit product_name sku =
        take (nat limit) (drop (nat offset) (grouped_overview ilike upper product_name sku d)))
   \<and> set (get_inventory_overview ilike upper d offset limit product_name sku)
        \<subseteq> set (grouped_overview ilike upper product_name sku d)
   \<and> distinct (map iq_product_id (grouped_overview ilike upper product_name sku d))
   \<and> set (map iq_product_id (grouped_overview ilike upper product_name sku d)) =
        (\<lambda>(i, p). p_id p) ` set (overview_query ilike upper product_name sku d)
   \<and> (\<forall>e\<in>set (grouped_overview ilike upper product_name sku d).
         iq_locations e =
           map (\<lambda>(i, p). \<lparr>lq_location = wi_location i, lq_quantity = wi_quantity i\<rparr>)
             (filter (\<lambda>(i, p). p_id p = iq_product_id e)
                (overview_query ilike upper product_name sku d)))"
proof (intro conjI impI ballI)
  assume "0 \<le> offset \<and> 0 \<le> limit"
  then show "get_inventory_overview ilike upper d offset limit product_name sku =
        take (nat limit) (drop (nat offset) (grouped_overview ilike upper product_name sku d))"
    by (simp add: get_inventory_overview_def py_slice_non_negative)
next
  show "set (get_inventory_overview ilike upper d offset limit product_name sku)
        \<subseteq> set (grouped_overview ilike upper product_name sku d)"
    by (simp add: get_inventory_overview_def py_slice_subset)
next
  show "distinct (map iq_product_id (grouped_overview ilike upper product_name sku d))"
    unfolding grouped_ids using group_keys by blast
next
  show "set (map iq_product_id (grouped_overview ilike upper product_name sku d)) =
        (\<lambda>(i, p). p_id p) ` set (overview_query ilike upper product_name sku d)"
    unfolding grouped_ids using group_keys by blast
next
  fix e assume "e \<in> set (grouped_overview ilike upper product_name sku d)"
  from grouped_entry [OF this]
  show "iq_locations e =
           map (\<lambda>(i, p). \<lparr>lq_location = wi_location i, lq_quantity = wi_quantity i\<rparr>)
             (filter (\<lambda>(i, p). p_id p = iq_product_id e)
                (overview_query ilike upper product_name sku d))" by simp
qed

theorem overview_pages_grouped_witness:
  "(0::int) \<le> 1
   \<and> get_inventory_overview any_ilike same_case store_two 1 1 None None =
       take (nat 1) (drop (nat 1) (grouped_overview any_ilike same_case None None store_two))
   \<and> get_inventory_overview any_ilike same_case store_two 1 1 None None =
     [\<lparr>iq_product_id = 2, iq_product_name = ''Gadget'', iq_sku = ''GAD-2'', iq_total_quantity = 4,
       iq_locations = [\<lparr>lq_location = ''A1'', lq_quantity = 4\<rparr>]\<rparr>]"
proof -
  have h: "(0::int) \<le> 1" by simp
  from overview_pages_grouped [of 1 1 any_ilike same_case store_two None None] h
  have a: "get_inventory_overview any_ilike same_case store_two 1 1 None None =
       take (nat 1) (drop (nat 1) (grouped_overview any_ilike same_case None None store_two))"
    by blast
  then have "get_inventory_overview any_ilike same_case store_two 1 1 None None =
     [\<lparr>iq_product_id = 2, iq_product_name = ''Gadget'', iq_sku = ''GAD-2'', iq_total_quantity = 4,
       iq_locations = [\<lparr>lq_location = ''A1'', lq_quantity = 4\<rparr>]\<rparr>]"
    by (simp add: grouped_store_two)
  with a h show ?thesis by blast
qed

end
